theory Spec2Isabelle
  imports Main
begin

section \<open>Data model\<close>

text \<open>
  Python exceptions as values. \<open>KeyError\<close> is what a dictionary lookup raises on a
  missing key, \<open>HTTPException\<close> carries a status code and a detail string, and
  \<open>Exception\<close> stands for every other exception (a failed connection, a bad
  configuration, ...). An operation that can raise returns \<open>exn + 'a\<close>: \<open>Inl e\<close> is
  "raised e", \<open>Inr v\<close> is "returned v".
\<close>

datatype exn = KeyError string | HTTPException nat string | Exception string

type_synonym 'a result = "exn + 'a"

text \<open>
  Modelled from the spec: the classes of \<open>domain/downstream_server.py\<close>, which
  \<open>downstream_controller.py\<close> imports. A configuration has a \<open>name\<close> and a
  connection descriptor; a tool carries its \<open>control_name\<close>, the only attribute the
  controller reads; a server object is built from a configuration and takes its control
  name from it. Two server objects are compared by identity, as Python compares objects
  of a class that defines no equality of its own, so a server carries the identity \<open>oid\<close>
  it was given when it was constructed.
\<close>

record DownstreamMCPServerConfig =
  name :: string
  command :: "string option"
  args :: "string list"
  url :: "string option"

record DownstreamMCPServerTool =
  control_name :: string
  tool_server_control_name :: string
  tool_name :: string

record DownstreamMCPServer =
  oid :: nat
  config :: DownstreamMCPServerConfig

definition get_control_name :: "DownstreamMCPServer \<Rightarrow> string" where
  "get_control_name server = name (config server)"

text \<open>
  Modelled from the spec: the methods of \<open>DownstreamMCPServer\<close>, whose code is in
  \<open>domain/downstream_server.py\<close> too, and the exit stack of the standard library.
  The calls the controller makes on its collaborators: \<open>server.initialize(exit_stack)\<close>,
  \<open>server.list_tools()\<close>, \<open>server.shutdown()\<close> and \<open>exit_stack.aclose()\<close>. Each call is
  recorded as an event. What a call answers is up to the world outside the controller:
  a \<open>world\<close> gives, for the history of events so far and the call being made, the answer
  of that call. Nothing is assumed about a world, so it covers every behaviour of the
  connections, also one that answers the same call differently at different times.
\<close>

datatype event =
    Initialize DownstreamMCPServer
  | ListTools DownstreamMCPServer
  | Shutdown DownstreamMCPServer
  | AClose

record world =
  initialize_reply :: "event list \<Rightarrow> DownstreamMCPServer \<Rightarrow> exn option"
  list_tools_reply :: "event list \<Rightarrow> DownstreamMCPServer \<Rightarrow> DownstreamMCPServerTool list result"
  shutdown_reply :: "event list \<Rightarrow> DownstreamMCPServer \<Rightarrow> exn option"
  aclose_reply :: "event list \<Rightarrow> exn option"

text \<open>
  The controller object. The first five fields are the attributes set by \<open>__init__\<close>
  (\<open>_all_servers_tools\<close>, \<open>_servers_map\<close>, \<open>_tools_map\<close>, \<open>configs\<close>, \<open>_initialized\<close>).
  \<open>next_oid\<close> is the identity the next constructed server object gets, and \<open>trace\<close> is
  the history of calls made on the collaborators, oldest first. The lock
  \<open>_asyncio_lock\<close> serialises the operations; here every operation is one function
  from state to state.
\<close>

record DownstreamController =
  all_servers_tools :: "(DownstreamMCPServer \<times> DownstreamMCPServerTool list) list"
  servers_map :: "string \<rightharpoonup> DownstreamMCPServer"
  tools_map :: "string \<rightharpoonup> DownstreamMCPServerTool"
  configs :: "DownstreamMCPServerConfig list"
  initialized :: bool
  next_oid :: nat
  trace :: "event list"

definition new_controller :: "DownstreamMCPServerConfig list \<Rightarrow> DownstreamController" where
  "new_controller cfgs =
     \<lparr>all_servers_tools = [], servers_map = Map.empty, tools_map = Map.empty,
      configs = cfgs, initialized = False, next_oid = 0, trace = []\<rparr>"

section \<open>Calls on the collaborators\<close>

definition server_initialize ::
  "world \<Rightarrow> DownstreamMCPServer \<Rightarrow> DownstreamController \<Rightarrow> unit result \<times> DownstreamController" where
  "server_initialize w server st =
     (case initialize_reply w (trace st) server of None \<Rightarrow> Inr () | Some e \<Rightarrow> Inl e,
      st\<lparr>trace := trace st @ [Initialize server]\<rparr>)"

definition server_list_tools ::
  "world \<Rightarrow> DownstreamMCPServer \<Rightarrow> DownstreamController
     \<Rightarrow> DownstreamMCPServerTool list result \<times> DownstreamController" where
  "server_list_tools w server st =
     (list_tools_reply w (trace st) server, st\<lparr>trace := trace st @ [ListTools server]\<rparr>)"

definition server_shutdown ::
  "world \<Rightarrow> DownstreamMCPServer \<Rightarrow> DownstreamController \<Rightarrow> unit result \<times> DownstreamController" where
  "server_shutdown w server st =
     (case shutdown_reply w (trace st) server of None \<Rightarrow> Inr () | Some e \<Rightarrow> Inl e,
      st\<lparr>trace := trace st @ [Shutdown server]\<rparr>)"

definition exit_stack_aclose ::
  "world \<Rightarrow> DownstreamController \<Rightarrow> unit result \<times> DownstreamController" where
  "exit_stack_aclose w st =
     (case aclose_reply w (trace st) of None \<Rightarrow> Inr () | Some e \<Rightarrow> Inl e,
      st\<lparr>trace := trace st @ [AClose]\<rparr>)"

section \<open>The controller's operations (downstream\_controller.py)\<close>

definition list_all_servers_tools ::
  "DownstreamController \<Rightarrow> (DownstreamMCPServer \<times> DownstreamMCPServerTool list) list" where
  "list_all_servers_tools st = all_servers_tools st"

definition get_tool_by_control_name ::
  "DownstreamController \<Rightarrow> string \<Rightarrow> DownstreamMCPServerTool result" where
  "get_tool_by_control_name st tool_control_name =
     (case tools_map st tool_control_name of
        None \<Rightarrow> Inl (KeyError tool_control_name)
      | Some tool \<Rightarrow> Inr tool)"

definition get_server_by_control_name ::
  "DownstreamController \<Rightarrow> string \<Rightarrow> DownstreamMCPServer result" where
  "get_server_by_control_name st server_control_name =
     (case servers_map st server_control_name of
        None \<Rightarrow> Inl (KeyError server_control_name)
      | Some server \<Rightarrow> Inr server)"

text \<open>\<open>for tool in tools: self._tools_map[tool.control_name] = tool\<close>\<close>

definition insert_tools ::
  "(string \<rightharpoonup> DownstreamMCPServerTool) \<Rightarrow> DownstreamMCPServerTool list
     \<Rightarrow> (string \<rightharpoonup> DownstreamMCPServerTool)" where
  "insert_tools m tools = foldl (\<lambda>m tool. m(control_name tool \<mapsto> tool)) m tools"

text \<open>
  \<open>for tool in tools_to_remove:
      if tool.control_name in self._tools_map: del self._tools_map[tool.control_name]\<close>
\<close>

definition delete_tools ::
  "(string \<rightharpoonup> DownstreamMCPServerTool) \<Rightarrow> DownstreamMCPServerTool list
     \<Rightarrow> (string \<rightharpoonup> DownstreamMCPServerTool)" where
  "delete_tools m tools_to_remove =
     foldl (\<lambda>m tool. if m (control_name tool) \<noteq> None then m(control_name tool := None) else m)
       m tools_to_remove"

definition add_server ::
  "world \<Rightarrow> DownstreamMCPServerConfig \<Rightarrow> DownstreamController
     \<Rightarrow> unit result \<times> DownstreamController" where
  "add_server w cfg st0 =
     (let server = \<lparr>oid = next_oid st0, config = cfg\<rparr>;
          st1 = st0\<lparr>next_oid := Suc (next_oid st0)\<rparr>
      in case server_initialize w server st1 of
           (Inl e, st2) \<Rightarrow> (Inl e, st2)
         | (Inr u, st2) \<Rightarrow>
             (let st3 = st2\<lparr>servers_map := (servers_map st2)(get_control_name server \<mapsto> server)\<rparr>
              in case server_list_tools w server st3 of
                   (Inl e, st4) \<Rightarrow> (Inl e, st4)
                 | (Inr tools, st4) \<Rightarrow>
                     (let st5 = st4\<lparr>all_servers_tools := all_servers_tools st4 @ [(server, tools)]\<rparr>
                      in (Inr (), st5\<lparr>tools_map := insert_tools (tools_map st5) tools\<rparr>))))"

text \<open>\<open>register_downstream_mcp_server\<close> has the body of \<open>add_server\<close> without the lock.\<close>

definition register_downstream_mcp_server ::
  "world \<Rightarrow> DownstreamMCPServerConfig \<Rightarrow> DownstreamController
     \<Rightarrow> unit result \<times> DownstreamController" where
  "register_downstream_mcp_server w cfg st0 =
     (let server = \<lparr>oid = next_oid st0, config = cfg\<rparr>;
          st1 = st0\<lparr>next_oid := Suc (next_oid st0)\<rparr>
      in case server_initialize w server st1 of
           (Inl e, st2) \<Rightarrow> (Inl e, st2)
         | (Inr u, st2) \<Rightarrow>
             (let st3 = st2\<lparr>servers_map := (servers_map st2)(get_control_name server \<mapsto> server)\<rparr>
              in case server_list_tools w server st3 of
                   (Inl e, st4) \<Rightarrow> (Inl e, st4)
                 | (Inr tools, st4) \<Rightarrow>
                     (let st5 = st4\<lparr>all_servers_tools := all_servers_tools st4 @ [(server, tools)]\<rparr>
                      in (Inr (), st5\<lparr>tools_map := insert_tools (tools_map st5) tools\<rparr>))))"

text \<open>
  \<open>initialize\<close>: the loop \<open>for config in self.configs\<close>; an exception raised by a
  registration leaves the loop and the method, and \<open>_initialized\<close> is set only after
  the loop.
\<close>

fun register_each ::
  "world \<Rightarrow> DownstreamMCPServerConfig list \<Rightarrow> DownstreamController
     \<Rightarrow> unit result \<times> DownstreamController" where
  "register_each w [] st = (Inr (), st)"
| "register_each w (cfg # rest) st =
     (case register_downstream_mcp_server w cfg st of
        (Inl e, st') \<Rightarrow> (Inl e, st')
      | (Inr u, st') \<Rightarrow> register_each w rest st')"

definition initialize ::
  "world \<Rightarrow> DownstreamController \<Rightarrow> unit result \<times> DownstreamController" where
  "initialize w st =
     (case register_each w (configs st) st of
        (Inl e, st') \<Rightarrow> (Inl e, st')
      | (Inr u, st') \<Rightarrow> (Inr (), st'\<lparr>initialized := True\<rparr>))"

definition is_initialized :: "DownstreamController \<Rightarrow> bool" where
  "is_initialized st = initialized st"

definition remove_server ::
  "world \<Rightarrow> string \<Rightarrow> DownstreamController \<Rightarrow> unit result \<times> DownstreamController" where
  "remove_server w server_control_name st0 =
     (case servers_map st0 server_control_name of
        None \<Rightarrow> (Inr (), st0)
      | Some server \<Rightarrow>
          (let st1 = st0\<lparr>servers_map := (servers_map st0)(server_control_name := None)\<rparr>
           in case server_shutdown w server st1 of
                (Inl e, st2) \<Rightarrow> (Inl e, st2)
              | (Inr u, st2) \<Rightarrow>
                  (let st3 = st2\<lparr>all_servers_tools :=
                                    filter (\<lambda>(s, t). s \<noteq> server) (all_servers_tools st2)\<rparr>
                   in case server_list_tools w server st3 of
                        (Inl e, st4) \<Rightarrow> (Inl e, st4)
                      | (Inr tools_to_remove, st4) \<Rightarrow>
                          (Inr (), st4\<lparr>tools_map := delete_tools (tools_map st4) tools_to_remove\<rparr>))))"

text \<open>
  \<open>shutdown\<close>: the loop \<open>for server, _ in self._all_servers_tools: await server.shutdown()\<close>,
  then \<open>await self.exit_stack.aclose()\<close>. There is no \<open>try\<close> around either: an
  exception raised by a connection's \<open>shutdown\<close> leaves the method.
\<close>

fun shutdown_each ::
  "world \<Rightarrow> (DownstreamMCPServer \<times> DownstreamMCPServerTool list) list \<Rightarrow> DownstreamController
     \<Rightarrow> unit result \<times> DownstreamController" where
  "shutdown_each w [] st = (Inr (), st)"
| "shutdown_each w ((server, ts) # rest) st =
     (case server_shutdown w server st of
        (Inl e, st') \<Rightarrow> (Inl e, st')
      | (Inr u, st') \<Rightarrow> shutdown_each w rest st')"

definition shutdown ::
  "world \<Rightarrow> DownstreamController \<Rightarrow> unit result \<times> DownstreamController" where
  "shutdown w st =
     (case shutdown_each w (all_servers_tools st) st of
        (Inl e, st') \<Rightarrow> (Inl e, st')
      | (Inr u, st') \<Rightarrow> exit_stack_aclose w st')"

section \<open>The boundary operation (api.py)\<close>

definition quoted :: "string \<Rightarrow> string" where
  "quoted s = [CHR 0x27] @ s @ [CHR 0x27]"

text \<open>
  The two \<open>except\<close> clauses of the outer \<open>try\<close>: an \<open>HTTPException\<close> is raised again as it
  is, every other exception becomes a 500.
\<close>

definition add_new_server_handler :: "DownstreamMCPServerConfig \<Rightarrow> exn \<Rightarrow> exn" where
  "add_new_server_handler cfg e =
     (case e of
        HTTPException code detail \<Rightarrow> HTTPException code detail
      | _ \<Rightarrow> HTTPException 500
              (''An unexpected error occurred while adding server '' @ quoted (name cfg) @ ''.''))"

definition add_new_server ::
  "world \<Rightarrow> DownstreamMCPServerConfig \<Rightarrow> DownstreamController
     \<Rightarrow> string result \<times> DownstreamController" where
  "add_new_server w cfg st =
     (case get_server_by_control_name st (name cfg) of
        Inr found \<Rightarrow>
          (Inl (add_new_server_handler cfg
                  (HTTPException 409
                     (''Server with control name '' @ quoted (name cfg) @ '' already exists.''))),
           st)
      | Inl (KeyError k) \<Rightarrow>
          (case add_server w cfg st of
             (Inr u, st') \<Rightarrow> (Inr (''Server '' @ quoted (name cfg) @ '' added successfully.''), st')
           | (Inl e, st') \<Rightarrow> (Inl (add_new_server_handler cfg e), st'))
      | Inl e \<Rightarrow> (Inl (add_new_server_handler cfg e), st))"

section \<open>Sequences of calls\<close>

text \<open>
  A caller issues \<open>add_server\<close> and \<open>remove_server\<close> calls one after the other. A call
  that raises hands its exception to the caller; the controller stays in the state the
  call left it in, and the next call starts from there.
\<close>

datatype call = AddServer DownstreamMCPServerConfig | RemoveServer string

fun perform ::
  "world \<Rightarrow> call \<Rightarrow> DownstreamController \<Rightarrow> unit result \<times> DownstreamController" where
  "perform w (AddServer cfg) st = add_server w cfg st"
| "perform w (RemoveServer n) st = remove_server w n st"

fun run :: "world \<Rightarrow> call list \<Rightarrow> DownstreamController \<Rightarrow> DownstreamController" where
  "run w [] st = st"
| "run w (c # cs) st = run w cs (snd (perform w c st))"

fun results :: "world \<Rightarrow> call list \<Rightarrow> DownstreamController \<Rightarrow> unit result list" where
  "results w [] st = []"
| "results w (c # cs) st = fst (perform w c st) # results w cs (snd (perform w c st))"

section \<open>Notions used in the statements\<close>

text \<open>
  Every server object the registry holds was constructed before the next one will be:
  a newly constructed object is identical to none of them.
\<close>

definition heap_ok :: "DownstreamController \<Rightarrow> bool" where
  "heap_ok st \<longleftrightarrow>
     list_all (\<lambda>(s, ts). oid s < next_oid st) (all_servers_tools st) \<and>
     (\<forall>s \<in> ran (servers_map st). oid s < next_oid st)"

text \<open>The control names of the servers in \<open>list_all_servers_tools\<close>, in list order.\<close>

definition registered_names :: "DownstreamController \<Rightarrow> string list" where
  "registered_names st = map (\<lambda>(s, ts). get_control_name s) (list_all_servers_tools st)"

text \<open>
  The registration order as the specification describes it, computed from the calls
  alone: a registration goes to the end, a removal drops the name, the others keep
  their places.
\<close>

fun registration_order :: "call list \<Rightarrow> string list \<Rightarrow> string list" where
  "registration_order [] ns = ns"
| "registration_order (AddServer cfg # cs) ns = registration_order cs (ns @ [name cfg])"
| "registration_order (RemoveServer n # cs) ns =
     registration_order cs (filter (\<lambda>m. m \<noteq> n) ns)"

text \<open>
  A sequence of calls is orderly when every call returns normally and no \<open>add_server\<close>
  uses a control name that is a key of the server map at that moment.
\<close>

fun orderly :: "world \<Rightarrow> call list \<Rightarrow> DownstreamController \<Rightarrow> bool" where
  "orderly w [] st = True"
| "orderly w (AddServer cfg # cs) st =
     (servers_map st (name cfg) = None \<and> fst (add_server w cfg st) = Inr () \<and>
      orderly w cs (snd (add_server w cfg st)))"
| "orderly w (RemoveServer n # cs) st =
     (fst (remove_server w n st) = Inr () \<and> orderly w cs (snd (remove_server w n st)))"

text \<open>The server map read off the ordered list: one entry per pair.\<close>

definition server_entries :: "DownstreamController \<Rightarrow> (string \<times> DownstreamMCPServer) list" where
  "server_entries st = map (\<lambda>(s, ts). (get_control_name s, s)) (all_servers_tools st)"

definition registry_inv :: "DownstreamController \<Rightarrow> bool" where
  "registry_inv st \<longleftrightarrow>
     distinct (map fst (server_entries st)) \<and> servers_map st = map_of (server_entries st)"

text \<open>
  The tool control names of the currently registered servers: the names of the tools
  listed, in \<open>_all_servers_tools\<close>, with a server that is a value of \<open>_servers_map\<close>.
\<close>

definition registered_tool_names :: "DownstreamController \<Rightarrow> string set" where
  "registered_tool_names st =
     (\<Union>(s, ts) \<in> set (all_servers_tools st).
        if s \<in> ran (servers_map st) then control_name ` set ts else {})"

text \<open>The tool list captured for a server when it was added.\<close>

definition captured_tools ::
  "DownstreamController \<Rightarrow> DownstreamMCPServer \<Rightarrow> DownstreamMCPServerTool list" where
  "captured_tools st server =
     concat (map snd (filter (\<lambda>(s, ts). s = server) (all_servers_tools st)))"

text \<open>
  \<open>add_server_ok\<close>: the control name is new, both calls on the new connection succeed,
  and the tools it lists have control names distinct from each other and from every key
  of the tool index.
  \<open>remove_server_ok\<close>: the connection shuts down, and the tool list it gives when it is
  queried again after the shutdown has the control names of the list captured at add
  time.
\<close>

definition add_server_ok ::
  "world \<Rightarrow> DownstreamMCPServerConfig \<Rightarrow> DownstreamController \<Rightarrow> bool" where
  "add_server_ok w cfg st =
     (servers_map st (name cfg) = None \<and>
      initialize_reply w (trace st) \<lparr>oid = next_oid st, config = cfg\<rparr> = None \<and>
      (case list_tools_reply w (trace st @ [Initialize \<lparr>oid = next_oid st, config = cfg\<rparr>])
              \<lparr>oid = next_oid st, config = cfg\<rparr> of
         Inl e \<Rightarrow> False
       | Inr tools \<Rightarrow>
           distinct (map control_name tools) \<and>
           list_all (\<lambda>tool. tools_map st (control_name tool) = None) tools))"

definition remove_server_ok :: "world \<Rightarrow> string \<Rightarrow> DownstreamController \<Rightarrow> bool" where
  "remove_server_ok w n st =
     (case servers_map st n of
        None \<Rightarrow> True
      | Some server \<Rightarrow>
          shutdown_reply w (trace st) server = None \<and>
          (case list_tools_reply w (trace st @ [Shutdown server]) server of
             Inl e \<Rightarrow> False
           | Inr tools_to_remove \<Rightarrow>
               control_name ` set tools_to_remove =
                 control_name ` set (captured_tools st server)))"

fun well_behaved :: "world \<Rightarrow> call list \<Rightarrow> DownstreamController \<Rightarrow> bool" where
  "well_behaved w [] st = True"
| "well_behaved w (AddServer cfg # cs) st =
     (add_server_ok w cfg st \<and> well_behaved w cs (snd (add_server w cfg st)))"
| "well_behaved w (RemoveServer n # cs) st =
     (remove_server_ok w n st \<and> well_behaved w cs (snd (remove_server w n st)))"

definition indexed_names :: "DownstreamController \<Rightarrow> string list" where
  "indexed_names st = concat (map (\<lambda>(s, ts). map control_name ts) (all_servers_tools st))"

definition tools_inv :: "DownstreamController \<Rightarrow> bool" where
  "tools_inv st \<longleftrightarrow>
     registry_inv st \<and> distinct (indexed_names st) \<and>
     dom (tools_map st) = set (indexed_names st)"

text \<open>
  What the \<open>i\<close>-th connection of the list answers when \<open>shutdown\<close> reaches it, the
  connections before it having been shut down.
\<close>

definition shutdown_answer :: "world \<Rightarrow> DownstreamController \<Rightarrow> nat \<Rightarrow> exn option" where
  "shutdown_answer w st i =
     shutdown_reply w (trace st @ map Shutdown (take i (map fst (all_servers_tools st))))
       (fst (all_servers_tools st ! i))"

section \<open>Example configurations, tools and worlds\<close>

definition cfgA :: DownstreamMCPServerConfig where
  "cfgA = \<lparr>name = ''A'', command = Some ''echo A'', args = [], url = None\<rparr>"

text \<open>A second configuration under the control name \<open>A\<close>, with another descriptor.\<close>

definition cfgA_alt :: DownstreamMCPServerConfig where
  "cfgA_alt = \<lparr>name = ''A'', command = None, args = [], url = Some ''http://a''\<rparr>"

definition cfgB :: DownstreamMCPServerConfig where
  "cfgB = \<lparr>name = ''B'', command = None, args = [], url = Some ''http://b''\<rparr>"

definition t1 :: DownstreamMCPServerTool where
  "t1 = \<lparr>control_name = ''A-t1'', tool_server_control_name = ''A'', tool_name = ''t1''\<rparr>"

text \<open>Another tool under the control name of \<open>t1\<close>.\<close>

definition t1_alt :: DownstreamMCPServerTool where
  "t1_alt = \<lparr>control_name = ''A-t1'', tool_server_control_name = ''A'', tool_name = ''t1-v2''\<rparr>"

definition t2 :: DownstreamMCPServerTool where
  "t2 = \<lparr>control_name = ''A-t2'', tool_server_control_name = ''A'', tool_name = ''t2''\<rparr>"

definition t3 :: DownstreamMCPServerTool where
  "t3 = \<lparr>control_name = ''B-t3'', tool_server_control_name = ''B'', tool_name = ''t3''\<rparr>"

definition catalogue :: "DownstreamMCPServer \<Rightarrow> DownstreamMCPServerTool list" where
  "catalogue server =
     (if get_control_name server = ''A''
      then (if url (config server) = None then [t1, t2] else [t1_alt, t2])
      else if get_control_name server = ''B'' then [t3] else [])"

text \<open>A world where every call succeeds and a server always lists the same tools.\<close>

definition steady_world :: world where
  "steady_world =
     \<lparr>initialize_reply = (\<lambda>tr server. None),
      list_tools_reply = (\<lambda>tr server. Inr (catalogue server)),
      shutdown_reply = (\<lambda>tr server. None),
      aclose_reply = (\<lambda>tr. None)\<rparr>"

text \<open>A world where a connection that has been shut down lists no tools any more.\<close>

definition forgetful_world :: world where
  "forgetful_world =
     \<lparr>initialize_reply = (\<lambda>tr server. None),
      list_tools_reply =
        (\<lambda>tr server. if Shutdown server \<in> set tr then Inr [] else Inr (catalogue server)),
      shutdown_reply = (\<lambda>tr server. None),
      aclose_reply = (\<lambda>tr. None)\<rparr>"

text \<open>A world where the connection of server \<open>A\<close> fails to shut down.\<close>

definition stubborn_world :: world where
  "stubborn_world =
     \<lparr>initialize_reply = (\<lambda>tr server. None),
      list_tools_reply = (\<lambda>tr server. Inr (catalogue server)),
      shutdown_reply =
        (\<lambda>tr server. if get_control_name server = ''A''
                      then Some (Exception ''shutdown failed'') else None),
      aclose_reply = (\<lambda>tr. None)\<rparr>"

text \<open>A world where server \<open>B\<close> cannot be reached.\<close>

definition unreachable_B_world :: world where
  "unreachable_B_world =
     \<lparr>initialize_reply =
        (\<lambda>tr server. if get_control_name server = ''B''
                      then Some (Exception ''connection refused'') else None),
      list_tools_reply = (\<lambda>tr server. Inr (catalogue server)),
      shutdown_reply = (\<lambda>tr server. None),
      aclose_reply = (\<lambda>tr. None)\<rparr>"

text \<open>A world where a connection reached over a URL initialises but fails to list its tools.\<close>

definition url_listing_fails_world :: world where
  "url_listing_fails_world =
     \<lparr>initialize_reply = (\<lambda>tr server. None),
      list_tools_reply =
        (\<lambda>tr server. if url (config server) = None then Inr (catalogue server)
                      else Inl (Exception ''listing failed'')),
      shutdown_reply = (\<lambda>tr server. None),
      aclose_reply = (\<lambda>tr. None)\<rparr>"

text \<open>A world where the very first query for a tool list fails and every later one succeeds.\<close>

definition late_listing_world :: world where
  "late_listing_world =
     \<lparr>initialize_reply = (\<lambda>tr server. None),
      list_tools_reply =
        (\<lambda>tr server. if length tr < 2 then Inl (Exception ''listing failed'')
                      else Inr (catalogue server)),
      shutdown_reply = (\<lambda>tr server. None),
      aclose_reply = (\<lambda>tr. None)\<rparr>"

text \<open>A world where a connection that has been shut down refuses to list its tools.\<close>

definition closed_world :: world where
  "closed_world =
     \<lparr>initialize_reply = (\<lambda>tr server. None),
      list_tools_reply =
        (\<lambda>tr server. if Shutdown server \<in> set tr
                      then Inl (Exception ''connection closed'') else Inr (catalogue server)),
      shutdown_reply = (\<lambda>tr server. None),
      aclose_reply = (\<lambda>tr. None)\<rparr>"

text \<open>The server objects these examples construct, and the registries they reach.\<close>

definition serverA :: DownstreamMCPServer where
  "serverA = \<lparr>oid = 0, config = cfgA\<rparr>"

definition serverB :: DownstreamMCPServer where
  "serverB = \<lparr>oid = Suc 0, config = cfgB\<rparr>"

definition serverA2 :: DownstreamMCPServer where
  "serverA2 = \<lparr>oid = Suc 0, config = cfgA_alt\<rparr>"

definition registry_A :: "world \<Rightarrow> DownstreamController" where
  "registry_A w = run w [AddServer cfgA] (new_controller [])"

definition registry_AB :: "world \<Rightarrow> DownstreamController" where
  "registry_AB w = run w [AddServer cfgA, AddServer cfgB] (new_controller [])"

definition state_A :: DownstreamController where
  "state_A =
     \<lparr>all_servers_tools = [(serverA, [t1, t2])],
      servers_map = [''A'' \<mapsto> serverA],
      tools_map = [''A-t1'' \<mapsto> t1, ''A-t2'' \<mapsto> t2],
      configs = [], initialized = False, next_oid = Suc 0,
      trace = [Initialize serverA, ListTools serverA]\<rparr>"

definition state_AB :: DownstreamController where
  "state_AB =
     \<lparr>all_servers_tools = [(serverA, [t1, t2]), (serverB, [t3])],
      servers_map = [''A'' \<mapsto> serverA, ''B'' \<mapsto> serverB],
      tools_map = [''A-t1'' \<mapsto> t1, ''A-t2'' \<mapsto> t2, ''B-t3'' \<mapsto> t3],
      configs = [], initialized = False, next_oid = Suc (Suc 0),
      trace = [Initialize serverA, ListTools serverA, Initialize serverB, ListTools serverB]\<rparr>"

text \<open>
  The registry after an \<open>add_server\<close> of \<open>A\<close> whose connection initialised and whose tool
  list could not be fetched: the server is in the server map, and nowhere else.
\<close>

definition state_half_A :: DownstreamController where
  "state_half_A =
     \<lparr>all_servers_tools = [], servers_map = [''A'' \<mapsto> serverA], tools_map = Map.empty,
      configs = [], initialized = False, next_oid = Suc 0,
      trace = [Initialize serverA, ListTools serverA]\<rparr>"

section \<open>Basic facts\<close>

lemma register_is_add_server:
  "register_downstream_mcp_server w cfg st = add_server w cfg st"
  by (simp add: register_downstream_mcp_server_def add_server_def)

subsection \<open>The two loops over a tool list\<close>

lemma insert_tools_Nil [simp]: "insert_tools m [] = m"
  by (simp add: insert_tools_def)

lemma insert_tools_Cons [simp]:
  "insert_tools m (t # ts) = insert_tools (m(control_name t \<mapsto> t)) ts"
  by (simp add: insert_tools_def)

lemma insert_tools_append:
  "insert_tools m (ts @ us) = insert_tools (insert_tools m ts) us"
  by (simp add: insert_tools_def)

lemma insert_tools_other:
  "k \<notin> control_name ` set ts \<Longrightarrow> insert_tools m ts k = m k"
  by (induction ts arbitrary: m) auto

lemma dom_insert_tools: "dom (insert_tools m ts) = dom m \<union> control_name ` set ts"
  by (induction ts arbitrary: m) auto

lemma insert_tools_last:
  "t \<in> set ts \<Longrightarrow>
     insert_tools m ts (control_name t) =
       Some (last (filter (\<lambda>t'. control_name t' = control_name t) ts))"
proof (induction ts arbitrary: m rule: rev_induct)
  case Nil
  then show ?case by simp
next
  case (snoc x xs)
  show ?case
  proof (cases "control_name x = control_name t")
    case True
    then show ?thesis by (simp add: insert_tools_append)
  next
    case False
    with snoc.prems have "t \<in> set xs" by auto
    with snoc.IH False show ?thesis by (simp add: insert_tools_append)
  qed
qed

lemma insert_tools_distinct:
  "distinct (map control_name ts) \<Longrightarrow> t \<in> set ts \<Longrightarrow>
     insert_tools m ts (control_name t) = Some t"
  by (induction ts arbitrary: m) (auto simp: insert_tools_other)

lemma delete_tools_Nil [simp]: "delete_tools m [] = m"
  by (simp add: delete_tools_def)

lemma delete_tools_Cons [simp]:
  "delete_tools m (t # ts) = delete_tools (m(control_name t := None)) ts"
proof -
  have "(if m (control_name t) \<noteq> None then m(control_name t := None) else m)
          = m(control_name t := None)"
    by auto
  then show ?thesis by (simp add: delete_tools_def)
qed

lemma delete_tools_apply:
  "delete_tools m ts k = (if k \<in> control_name ` set ts then None else m k)"
  by (induction ts arbitrary: m) auto

lemma dom_delete_tools: "dom (delete_tools m ts) = dom m - control_name ` set ts"
  by (auto simp: delete_tools_apply dom_def)

lemma delete_insert_tools:
  assumes "\<forall>t \<in> set ts. m (control_name t) = None"
    and "control_name ` set ts' = control_name ` set ts"
  shows "delete_tools (insert_tools m ts) ts' = m"
proof
  fix k
  show "delete_tools (insert_tools m ts) ts' k = m k"
    using assms by (auto simp: delete_tools_apply insert_tools_other)
qed

subsection \<open>What one call does, by the answers it gets\<close>

lemma add_server_returns:
  assumes "server = \<lparr>oid = next_oid st, config = cfg\<rparr>"
    and "initialize_reply w (trace st) server = None"
    and "list_tools_reply w (trace st @ [Initialize server]) server = Inr tools"
  shows "add_server w cfg st =
           (Inr (), st\<lparr>next_oid := Suc (next_oid st),
                       trace := trace st @ [Initialize server, ListTools server],
                       servers_map := (servers_map st)(name cfg \<mapsto> server),
                       all_servers_tools := all_servers_tools st @ [(server, tools)],
                       tools_map := insert_tools (tools_map st) tools\<rparr>)"
  using assms
  by (simp add: add_server_def server_initialize_def server_list_tools_def
      get_control_name_def Let_def)

lemma add_server_initialize_raises:
  assumes "server = \<lparr>oid = next_oid st, config = cfg\<rparr>"
    and "initialize_reply w (trace st) server = Some e"
  shows "add_server w cfg st =
           (Inl e, st\<lparr>next_oid := Suc (next_oid st),
                      trace := trace st @ [Initialize server]\<rparr>)"
  using assms
  by (simp add: add_server_def server_initialize_def Let_def)

lemma add_server_list_tools_raises:
  assumes "server = \<lparr>oid = next_oid st, config = cfg\<rparr>"
    and "initialize_reply w (trace st) server = None"
    and "list_tools_reply w (trace st @ [Initialize server]) server = Inl e"
  shows "add_server w cfg st =
           (Inl e, st\<lparr>next_oid := Suc (next_oid st),
                      trace := trace st @ [Initialize server, ListTools server],
                      servers_map := (servers_map st)(name cfg \<mapsto> server)\<rparr>)"
  using assms
  by (simp add: add_server_def server_initialize_def server_list_tools_def
      get_control_name_def Let_def)

lemma remove_server_returns:
  assumes "servers_map st n = Some server"
    and "shutdown_reply w (trace st) server = None"
    and "list_tools_reply w (trace st @ [Shutdown server]) server = Inr tools_to_remove"
  shows "remove_server w n st =
           (Inr (), st\<lparr>servers_map := (servers_map st)(n := None),
                       trace := trace st @ [Shutdown server, ListTools server],
                       all_servers_tools := filter (\<lambda>(s, t). s \<noteq> server) (all_servers_tools st),
                       tools_map := delete_tools (tools_map st) tools_to_remove\<rparr>)"
  using assms
  by (simp add: remove_server_def server_shutdown_def server_list_tools_def Let_def)

lemma remove_server_shutdown_raises:
  assumes "servers_map st n = Some server"
    and "shutdown_reply w (trace st) server = Some e"
  shows "remove_server w n st =
           (Inl e, st\<lparr>servers_map := (servers_map st)(n := None),
                      trace := trace st @ [Shutdown server]\<rparr>)"
  using assms
  by (simp add: remove_server_def server_shutdown_def Let_def)

lemma remove_server_list_tools_raises:
  assumes "servers_map st n = Some server"
    and "shutdown_reply w (trace st) server = None"
    and "list_tools_reply w (trace st @ [Shutdown server]) server = Inl e"
  shows "remove_server w n st =
           (Inl e, st\<lparr>servers_map := (servers_map st)(n := None),
                      trace := trace st @ [Shutdown server, ListTools server],
                      all_servers_tools := filter (\<lambda>(s, t). s \<noteq> server) (all_servers_tools st)\<rparr>)"
  using assms
  by (simp add: remove_server_def server_shutdown_def server_list_tools_def Let_def)

lemma add_server_Inr_elim:
  assumes "add_server w cfg st = (Inr u, st')"
  obtains tools where
    "initialize_reply w (trace st) \<lparr>oid = next_oid st, config = cfg\<rparr> = None"
    "list_tools_reply w (trace st @ [Initialize \<lparr>oid = next_oid st, config = cfg\<rparr>])
        \<lparr>oid = next_oid st, config = cfg\<rparr> = Inr tools"
    "st' = st\<lparr>next_oid := Suc (next_oid st),
             trace := trace st @ [Initialize \<lparr>oid = next_oid st, config = cfg\<rparr>,
                                  ListTools \<lparr>oid = next_oid st, config = cfg\<rparr>],
             servers_map := (servers_map st)(name cfg \<mapsto> \<lparr>oid = next_oid st, config = cfg\<rparr>),
             all_servers_tools := all_servers_tools st @ [(\<lparr>oid = next_oid st, config = cfg\<rparr>, tools)],
             tools_map := insert_tools (tools_map st) tools\<rparr>"
proof -
  define server where "server = \<lparr>oid = next_oid st, config = cfg\<rparr>"
  show thesis
  proof (cases "initialize_reply w (trace st) server")
    case (Some e)
    with assms show ?thesis
      using add_server_initialize_raises [OF server_def, of w e] by simp
  next
    case None
    show ?thesis
    proof (cases "list_tools_reply w (trace st @ [Initialize server]) server")
      case (Inl e)
      with assms None show ?thesis
        using add_server_list_tools_raises [OF server_def, of w e] by simp
    next
      case (Inr tools)
      with assms None show ?thesis
        using add_server_returns [OF server_def, of w tools] that [of tools]
        by (simp add: server_def)
    qed
  qed
qed

lemma remove_server_Inr_elim:
  assumes "remove_server w n st = (Inr u, st')" and "servers_map st n = Some server"
  obtains tools_to_remove where
    "shutdown_reply w (trace st) server = None"
    "list_tools_reply w (trace st @ [Shutdown server]) server = Inr tools_to_remove"
    "st' = st\<lparr>servers_map := (servers_map st)(n := None),
             trace := trace st @ [Shutdown server, ListTools server],
             all_servers_tools := filter (\<lambda>(s, t). s \<noteq> server) (all_servers_tools st),
             tools_map := delete_tools (tools_map st) tools_to_remove\<rparr>"
proof (cases "shutdown_reply w (trace st) server")
  case (Some e)
  with assms show ?thesis
    using remove_server_shutdown_raises [of st n server w e] by simp
next
  case None
  show ?thesis
  proof (cases "list_tools_reply w (trace st @ [Shutdown server]) server")
    case (Inl e)
    with assms None show ?thesis
      using remove_server_list_tools_raises [of st n server w e] by simp
  next
    case (Inr tools)
    with assms None show ?thesis
      using remove_server_returns [of st n server w tools] that [of tools] by simp
  qed
qed

subsection \<open>The server map and the ordered list agree\<close>

lemma map_of_snoc_fresh:
  "map_of xs k = None \<Longrightarrow> map_of (xs @ [(k, v)]) = (map_of xs)(k \<mapsto> v)"
  by (rule ext) (simp add: map_add_def split: option.splits)

lemma map_of_filter_key:
  "map_of (filter (\<lambda>p. fst p \<noteq> k) xs) = (map_of xs)(k := None)"
  by (induction xs) auto

lemma registered_names_entries: "registered_names st = map fst (server_entries st)"
  by (simp add: registered_names_def server_entries_def list_all_servers_tools_def
      case_prod_unfold)

lemma registry_inv_distinct: "registry_inv st \<Longrightarrow> distinct (map fst (server_entries st))"
  unfolding registry_inv_def by (rule conjunct1)

lemma registry_inv_map: "registry_inv st \<Longrightarrow> servers_map st = map_of (server_entries st)"
  unfolding registry_inv_def by (rule conjunct2)

lemma registry_inv_add:
  assumes inv: "registry_inv st" and fresh: "servers_map st (name cfg) = None"
    and add: "add_server w cfg st = (Inr u, st')"
  shows "registry_inv st' \<and> registered_names st' = registered_names st @ [name cfg]"
proof -
  from add obtain tools where st':
    "st' = st\<lparr>next_oid := Suc (next_oid st),
             trace := trace st @ [Initialize \<lparr>oid = next_oid st, config = cfg\<rparr>,
                                  ListTools \<lparr>oid = next_oid st, config = cfg\<rparr>],
             servers_map := (servers_map st)(name cfg \<mapsto> \<lparr>oid = next_oid st, config = cfg\<rparr>),
             all_servers_tools := all_servers_tools st @ [(\<lparr>oid = next_oid st, config = cfg\<rparr>, tools)],
             tools_map := insert_tools (tools_map st) tools\<rparr>"
    by (rule add_server_Inr_elim)
  have entries: "server_entries st' =
      server_entries st @ [(name cfg, \<lparr>oid = next_oid st, config = cfg\<rparr>)]"
    by (simp add: st' server_entries_def get_control_name_def)
  from fresh have none: "map_of (server_entries st) (name cfg) = None"
    unfolding registry_inv_map [OF inv] .
  then have "name cfg \<notin> fst ` set (server_entries st)"
    by (simp add: map_of_eq_None_iff)
  with registry_inv_distinct [OF inv] have "distinct (map fst (server_entries st'))"
    by (simp add: entries)
  moreover have "map_of (server_entries st') =
      (map_of (server_entries st))(name cfg \<mapsto> \<lparr>oid = next_oid st, config = cfg\<rparr>)"
    unfolding entries by (rule map_of_snoc_fresh [OF none])
  then have "servers_map st' = map_of (server_entries st')"
    by (simp add: st' registry_inv_map [OF inv])
  moreover have "registered_names st' = registered_names st @ [name cfg]"
    by (simp add: st' registered_names_def list_all_servers_tools_def get_control_name_def)
  ultimately show ?thesis by (simp add: registry_inv_def)
qed

lemma registry_inv_lookup:
  assumes "registry_inv st" and "(s, ts) \<in> set (all_servers_tools st)"
  shows "servers_map st (get_control_name s) = Some s"
proof -
  from assms(2) have "(get_control_name s, s) \<in> set (server_entries st)"
    by (force simp: server_entries_def)
  then have "map_of (server_entries st) (get_control_name s) = Some s"
    by (rule map_of_is_SomeI [OF registry_inv_distinct [OF assms(1)]])
  then show ?thesis
    unfolding registry_inv_map [OF assms(1)] .
qed

lemma registry_inv_key:
  assumes "registry_inv st" and "servers_map st n = Some server"
  shows "get_control_name server = n"
proof -
  from assms(2) have "map_of (server_entries st) n = Some server"
    unfolding registry_inv_map [OF assms(1)] .
  then have "(n, server) \<in> set (server_entries st)"
    by (rule map_of_SomeD)
  then show ?thesis by (auto simp: server_entries_def)
qed

lemma registry_inv_filter:
  assumes inv: "registry_inv st" and "servers_map st n = Some server"
  shows "filter (\<lambda>(s, t). s \<noteq> server) (all_servers_tools st) =
         filter (\<lambda>(s, t). get_control_name s \<noteq> n) (all_servers_tools st)"
proof (rule filter_cong [OF refl])
  fix p assume p: "p \<in> set (all_servers_tools st)"
  obtain s ts where [simp]: "p = (s, ts)" by (cases p)
  from p have "(s, ts) \<in> set (all_servers_tools st)" by simp
  then have "servers_map st (get_control_name s) = Some s"
    by (rule registry_inv_lookup [OF inv])
  with assms(2) registry_inv_key [OF assms]
  have "s = server \<longleftrightarrow> get_control_name s = n"
    by (metis option.inject)
  then show "(case p of (s, t) \<Rightarrow> s \<noteq> server) = (case p of (s, t) \<Rightarrow> get_control_name s \<noteq> n)"
    by simp
qed

lemma registry_inv_remove:
  assumes inv: "registry_inv st" and rm: "remove_server w n st = (Inr u, st')"
  shows "registry_inv st' \<and> registered_names st' = filter (\<lambda>m. m \<noteq> n) (registered_names st)"
proof (cases "servers_map st n")
  case None
  with rm have [simp]: "st' = st" by (simp add: remove_server_def)
  from None have "map_of (server_entries st) n = None"
    unfolding registry_inv_map [OF inv] .
  then have "n \<notin> fst ` set (server_entries st)"
    by (simp add: map_of_eq_None_iff)
  then have "n \<notin> set (registered_names st)"
    by (simp add: registered_names_entries)
  then have "filter (\<lambda>m. m \<noteq> n) (registered_names st) = registered_names st"
    by (auto simp: filter_id_conv)
  with inv show ?thesis by simp
next
  case (Some server)
  with rm obtain tools_to_remove where st':
    "st' = st\<lparr>servers_map := (servers_map st)(n := None),
             trace := trace st @ [Shutdown server, ListTools server],
             all_servers_tools := filter (\<lambda>(s, t). s \<noteq> server) (all_servers_tools st),
             tools_map := delete_tools (tools_map st) tools_to_remove\<rparr>"
    by (rule remove_server_Inr_elim)
  have flt: "all_servers_tools st' = filter (\<lambda>(s, t). get_control_name s \<noteq> n) (all_servers_tools st)"
    using registry_inv_filter [OF inv Some] by (simp add: st')
  have entries: "server_entries st' = filter (\<lambda>p. fst p \<noteq> n) (server_entries st)"
    by (simp add: flt server_entries_def filter_map o_def case_prod_unfold)
  have "distinct (map fst (server_entries st'))"
    using registry_inv_distinct [OF inv] by (simp add: entries distinct_map_filter)
  moreover have "map_of (server_entries st') = (map_of (server_entries st))(n := None)"
    unfolding entries by (rule map_of_filter_key)
  then have "servers_map st' = map_of (server_entries st')"
    by (simp add: st' registry_inv_map [OF inv])
  moreover have "registered_names st' = filter (\<lambda>m. m \<noteq> n) (registered_names st)"
    by (simp add: registered_names_entries entries filter_map o_def)
  ultimately show ?thesis by (simp add: registry_inv_def)
qed

lemma orderly_run:
  "registry_inv st \<Longrightarrow> orderly w cs st \<Longrightarrow>
     registry_inv (run w cs st) \<and>
     registered_names (run w cs st) = registration_order cs (registered_names st)"
proof (induction cs arbitrary: st)
  case Nil
  then show ?case by simp
next
  case (Cons c cs)
  show ?case
  proof (cases c)
    case (AddServer cfg)
    obtain r st' where add: "add_server w cfg st = (r, st')"
      by (cases "add_server w cfg st")
    with Cons.prems AddServer have fresh: "servers_map st (name cfg) = None"
      and r: "r = Inr ()" and rest: "orderly w cs st'"
      by simp_all
    from registry_inv_add [OF Cons.prems(1) fresh add [unfolded r]]
    have "registry_inv st'" and "registered_names st' = registered_names st @ [name cfg]"
      by simp_all
    with Cons.IH [OF _ rest] AddServer add show ?thesis by simp
  next
    case (RemoveServer n)
    obtain r st' where rm: "remove_server w n st = (r, st')"
      by (cases "remove_server w n st")
    with Cons.prems RemoveServer have r: "r = Inr ()" and rest: "orderly w cs st'"
      by simp_all
    from registry_inv_remove [OF Cons.prems(1) rm [unfolded r]]
    have "registry_inv st'"
      and "registered_names st' = filter (\<lambda>m. m \<noteq> n) (registered_names st)"
      by simp_all
    with Cons.IH [OF _ rest] RemoveServer rm show ?thesis by simp
  qed
qed

lemma registry_inv_new: "registry_inv (new_controller cfgs)"
  by (simp add: registry_inv_def server_entries_def new_controller_def)

subsection \<open>The tool index and the ordered list agree\<close>

lemma tools_invD:
  assumes "tools_inv st"
  shows "registry_inv st" "distinct (indexed_names st)" "dom (tools_map st) = set (indexed_names st)"
  using assms unfolding tools_inv_def by blast+

lemma registered_tool_names_inv:
  assumes "registry_inv st"
  shows "registered_tool_names st = set (indexed_names st)"
proof -
  have "\<And>s ts. (s, ts) \<in> set (all_servers_tools st) \<Longrightarrow> s \<in> ran (servers_map st)"
    using registry_inv_lookup [OF assms] by (blast intro: ranI)
  then have "registered_tool_names st =
      (\<Union>(s, ts) \<in> set (all_servers_tools st). control_name ` set ts)"
    unfolding registered_tool_names_def by (intro SUP_cong refl) auto
  also have "\<dots> = set (indexed_names st)"
    by (auto simp: indexed_names_def)
  finally show ?thesis .
qed

lemma concat_filter_split:
  "distinct (concat (map f xs)) \<Longrightarrow>
     set (concat (map f (filter (\<lambda>x. \<not> P x) xs))) =
       set (concat (map f xs)) - set (concat (map f (filter P xs)))"
  by (induction xs) auto

lemma distinct_concat_filter:
  "distinct (concat (map f xs)) \<Longrightarrow> distinct (concat (map f (filter P xs)))"
  by (induction xs) auto

lemma image_concat_snd:
  "g ` set (concat (map snd xs)) = set (concat (map (\<lambda>(s, ts). map g ts) xs))"
proof (induction xs)
  case Nil
  show ?case by simp
next
  case (Cons x xs)
  obtain s ts where x: "x = (s, ts)" by (cases x)
  have "g ` set (concat (map snd (x # xs))) = g ` set ts \<union> g ` set (concat (map snd xs))"
    by (simp add: x image_Un)
  also have "\<dots> = set (concat (map (\<lambda>(s, ts). map g ts) (x # xs)))"
    unfolding Cons.IH by (simp add: x)
  finally show ?case .
qed

lemma tools_inv_add:
  assumes inv: "tools_inv st" and ok: "add_server_ok w cfg st"
  shows "tools_inv (snd (add_server w cfg st))"
proof -
  define server where "server = \<lparr>oid = next_oid st, config = cfg\<rparr>"
  from ok obtain tools where fresh: "servers_map st (name cfg) = None"
    and init: "initialize_reply w (trace st) server = None"
    and lt: "list_tools_reply w (trace st @ [Initialize server]) server = Inr tools"
    and dist: "distinct (map control_name tools)"
    and new: "\<forall>tool \<in> set tools. tools_map st (control_name tool) = None"
    by (auto simp: add_server_ok_def server_def list_all_iff split: sum.splits)
  note add = add_server_returns [OF server_def init lt]
  define st' where "st' = snd (add_server w cfg st)"
  have st': "all_servers_tools st' = all_servers_tools st @ [(server, tools)]"
    "tools_map st' = insert_tools (tools_map st) tools"
    by (simp_all add: st'_def add)
  from registry_inv_add [OF tools_invD(1) [OF inv] fresh add]
  have reg: "registry_inv st'" by (simp add: st'_def add)
  have names: "indexed_names st' = indexed_names st @ map control_name tools"
    by (simp add: indexed_names_def st')
  from new have "dom (tools_map st) \<inter> control_name ` set tools = {}"
    by auto
  then have "set (indexed_names st) \<inter> control_name ` set tools = {}"
    unfolding tools_invD(3) [OF inv] .
  with dist tools_invD(2) [OF inv] have "distinct (indexed_names st')"
    by (simp add: names)
  moreover have "dom (tools_map st') = set (indexed_names st')"
    by (simp add: st' names dom_insert_tools tools_invD(3) [OF inv])
  ultimately show ?thesis
    using reg unfolding tools_inv_def st'_def by simp
qed

lemma tools_inv_remove:
  assumes inv: "tools_inv st" and ok: "remove_server_ok w n st"
  shows "tools_inv (snd (remove_server w n st))"
proof (cases "servers_map st n")
  case None
  with inv show ?thesis by (simp add: remove_server_def)
next
  case (Some server)
  with ok obtain tools_to_remove where sd: "shutdown_reply w (trace st) server = None"
    and lt: "list_tools_reply w (trace st @ [Shutdown server]) server = Inr tools_to_remove"
    and same: "control_name ` set tools_to_remove = control_name ` set (captured_tools st server)"
    by (auto simp: remove_server_ok_def split: sum.splits)
  note rm = remove_server_returns [OF Some sd lt]
  define st' where "st' = snd (remove_server w n st)"
  have st': "all_servers_tools st' = filter (\<lambda>(s, t). s \<noteq> server) (all_servers_tools st)"
    "tools_map st' = delete_tools (tools_map st) tools_to_remove"
    by (simp_all add: st'_def rm)
  from registry_inv_remove [OF tools_invD(1) [OF inv] rm]
  have reg: "registry_inv st'" by (simp add: st'_def rm)
  let ?f = "\<lambda>(s, ts). map control_name ts"
  let ?P = "\<lambda>(s, ts). s = server"
  have flt: "all_servers_tools st' = filter (\<lambda>x. \<not> ?P x) (all_servers_tools st)"
    by (simp add: st' case_prod_unfold)
  have cap: "control_name ` set (captured_tools st server) =
      set (concat (map ?f (filter ?P (all_servers_tools st))))"
    unfolding captured_tools_def by (rule image_concat_snd)
  from tools_invD(2) [OF inv] have d: "distinct (concat (map ?f (all_servers_tools st)))"
    by (simp add: indexed_names_def)
  have "set (indexed_names st') = set (indexed_names st) - control_name ` set tools_to_remove"
    unfolding indexed_names_def flt same cap by (rule concat_filter_split [OF d])
  then have "dom (tools_map st') = set (indexed_names st')"
    by (simp add: st' dom_delete_tools tools_invD(3) [OF inv])
  moreover have "distinct (indexed_names st')"
    unfolding indexed_names_def flt by (rule distinct_concat_filter [OF d])
  ultimately show ?thesis
    using reg unfolding tools_inv_def st'_def by simp
qed

lemma well_behaved_run:
  "tools_inv st \<Longrightarrow> well_behaved w cs st \<Longrightarrow> tools_inv (run w cs st)"
proof (induction cs arbitrary: st)
  case Nil
  then show ?case by simp
next
  case (Cons c cs)
  then show ?case
    by (cases c) (simp_all add: tools_inv_add tools_inv_remove)
qed

lemma well_behaved_take:
  "well_behaved w cs st \<Longrightarrow> well_behaved w (take k cs) st"
proof (induction cs arbitrary: st k)
  case Nil
  then show ?case by simp
next
  case (Cons c cs)
  then show ?case
    by (cases k; cases c) simp_all
qed

lemma tools_inv_new: "tools_inv (new_controller cfgs)"
  using registry_inv_new [of cfgs]
  by (simp add: tools_inv_def indexed_names_def) (simp add: new_controller_def)

subsection \<open>The loop of shutdown\<close>

lemma shutdown_each_all_ok:
  "(\<forall>i < length ps. shutdown_reply w (trace st @ map Shutdown (take i (map fst ps))) (fst (ps ! i)) = None)
   \<Longrightarrow> shutdown_each w ps st = (Inr (), st\<lparr>trace := trace st @ map Shutdown (map fst ps)\<rparr>)"
proof (induction ps arbitrary: st)
  case Nil
  show ?case by simp
next
  case (Cons p ps)
  obtain server ts where p: "p = (server, ts)" by (cases p)
  from Cons.prems [rule_format, of 0] have first: "shutdown_reply w (trace st) server = None"
    by (simp add: p)
  define st' where "st' = st\<lparr>trace := trace st @ [Shutdown server]\<rparr>"
  have "\<forall>i < length ps. shutdown_reply w (trace st' @ map Shutdown (take i (map fst ps))) (fst (ps ! i)) = None"
  proof (intro allI impI)
    fix i assume "i < length ps"
    with Cons.prems [rule_format, of "Suc i"] show
      "shutdown_reply w (trace st' @ map Shutdown (take i (map fst ps))) (fst (ps ! i)) = None"
      by (simp add: p st'_def)
  qed
  from Cons.IH [OF this] first show ?case
    by (simp add: p server_shutdown_def st'_def)
qed

lemma shutdown_each_first_failure:
  "k < length ps \<Longrightarrow>
   (\<forall>i < k. shutdown_reply w (trace st @ map Shutdown (take i (map fst ps))) (fst (ps ! i)) = None) \<Longrightarrow>
   shutdown_reply w (trace st @ map Shutdown (take k (map fst ps))) (fst (ps ! k)) = Some e \<Longrightarrow>
   shutdown_each w ps st = (Inl e, st\<lparr>trace := trace st @ map Shutdown (take (Suc k) (map fst ps))\<rparr>)"
proof (induction ps arbitrary: st k)
  case Nil
  then show ?case by simp
next
  case (Cons p ps)
  obtain server ts where p: "p = (server, ts)" by (cases p)
  show ?case
  proof (cases k)
    case 0
    with Cons.prems(3) show ?thesis
      by (simp add: p server_shutdown_def)
  next
    case (Suc j)
    from Cons.prems(2) [rule_format, of 0] Suc have first: "shutdown_reply w (trace st) server = None"
      by (simp add: p)
    define st' where "st' = st\<lparr>trace := trace st @ [Shutdown server]\<rparr>"
    have j: "j < length ps" using Cons.prems(1) Suc by simp
    have before: "\<forall>i < j. shutdown_reply w (trace st' @ map Shutdown (take i (map fst ps))) (fst (ps ! i)) = None"
    proof (intro allI impI)
      fix i assume "i < j"
      with Cons.prems(2) [rule_format, of "Suc i"] Suc show
        "shutdown_reply w (trace st' @ map Shutdown (take i (map fst ps))) (fst (ps ! i)) = None"
        by (simp add: p st'_def)
    qed
    have at: "shutdown_reply w (trace st' @ map Shutdown (take j (map fst ps))) (fst (ps ! j)) = Some e"
      using Cons.prems(3) Suc by (simp add: p st'_def)
    from Cons.IH [OF j before at] first Suc show ?thesis
      by (simp add: p server_shutdown_def st'_def)
  qed
qed

subsection \<open>The loop of initialize\<close>

lemma register_each_append:
  "register_each w (xs @ ys) st =
     (case register_each w xs st of
        (Inl e, st') \<Rightarrow> (Inl e, st')
      | (Inr u, st') \<Rightarrow> register_each w ys st')"
  by (induction xs arbitrary: st) (auto split: prod.splits sum.splits)

lemma add_server_Inl_frame:
  assumes "add_server w cfg st = (Inl e, st')"
  shows "all_servers_tools st' = all_servers_tools st \<and> tools_map st' = tools_map st \<and>
         initialized st' = initialized st \<and> configs st' = configs st \<and>
         (\<forall>n. n \<noteq> name cfg \<longrightarrow> servers_map st' n = servers_map st n)"
proof -
  define server where "server = \<lparr>oid = next_oid st, config = cfg\<rparr>"
  show ?thesis
  proof (cases "initialize_reply w (trace st) server")
    case (Some e')
    from assms show ?thesis
      unfolding add_server_initialize_raises [OF server_def Some] by auto
  next
    case None
    show ?thesis
    proof (cases "list_tools_reply w (trace st @ [Initialize server]) server")
      case (Inl e')
      from assms show ?thesis
        unfolding add_server_list_tools_raises [OF server_def None Inl] by auto
    next
      case (Inr tools)
      from assms show ?thesis
        unfolding add_server_returns [OF server_def None Inr] by simp
    qed
  qed
qed

lemma register_each_Inr:
  "register_each w cfgs st = (Inr u, st') \<Longrightarrow>
     map (config \<circ> fst) (all_servers_tools st') = map (config \<circ> fst) (all_servers_tools st) @ cfgs \<and>
     initialized st' = initialized st"
proof (induction cfgs arbitrary: st)
  case Nil
  then show ?case by simp
next
  case (Cons cfg cfgs)
  obtain r st1 where add: "add_server w cfg st = (r, st1)"
    by (cases "add_server w cfg st")
  with Cons.prems have r: "r = Inr ()" and rest: "register_each w cfgs st1 = (Inr u, st')"
    by (auto simp: register_is_add_server split: sum.splits)
  from add [unfolded r] obtain tools where
    "all_servers_tools st1 = all_servers_tools st @ [(\<lparr>oid = next_oid st, config = cfg\<rparr>, tools)]"
    "initialized st1 = initialized st"
    by (rule add_server_Inr_elim) simp
  with Cons.IH [OF rest] show ?case by simp
qed

lemma new_controller_fields [simp]:
  "all_servers_tools (new_controller cfgs) = []" "servers_map (new_controller cfgs) = Map.empty"
  "tools_map (new_controller cfgs) = Map.empty" "configs (new_controller cfgs) = cfgs"
  "initialized (new_controller cfgs) = False" "next_oid (new_controller cfgs) = 0"
  "trace (new_controller cfgs) = []"
  by (simp_all add: new_controller_def)

subsection \<open>The example worlds and registries, evaluated\<close>

lemma catalogue_examples [simp]:
  "catalogue serverA = [t1, t2]" "catalogue serverB = [t3]" "catalogue serverA2 = [t1_alt, t2]"
  by (simp_all add: catalogue_def get_control_name_def serverA_def serverB_def serverA2_def
      cfgA_def cfgB_def cfgA_alt_def)

lemma example_names [simp]:
  "name cfgA = ''A''" "name cfgB = ''B''" "name cfgA_alt = ''A''"
  "get_control_name serverA = ''A''" "get_control_name serverB = ''B''"
  "get_control_name serverA2 = ''A''"
  "control_name t1 = ''A-t1''" "control_name t2 = ''A-t2''" "control_name t3 = ''B-t3''"
  "control_name t1_alt = ''A-t1''"
  by (simp_all add: get_control_name_def serverA_def serverB_def serverA2_def cfgA_def cfgB_def
      cfgA_alt_def t1_def t2_def t3_def t1_alt_def)

lemma example_servers_differ [simp]:
  "serverA \<noteq> serverB" "serverB \<noteq> serverA" "serverA \<noteq> serverA2" "serverA2 \<noteq> serverA"
  by (simp_all add: serverA_def serverB_def serverA2_def cfgA_def cfgA_alt_def)

lemma steady_world_replies [simp]:
  "initialize_reply steady_world tr s = None"
  "list_tools_reply steady_world tr s = Inr (catalogue s)"
  "shutdown_reply steady_world tr s = None"
  "aclose_reply steady_world tr = None"
  by (simp_all add: steady_world_def)

lemma forgetful_world_replies [simp]:
  "initialize_reply forgetful_world tr s = None"
  "list_tools_reply forgetful_world tr s =
     (if Shutdown s \<in> set tr then Inr [] else Inr (catalogue s))"
  "shutdown_reply forgetful_world tr s = None"
  by (simp_all add: forgetful_world_def)

lemma closed_world_replies [simp]:
  "initialize_reply closed_world tr s = None"
  "list_tools_reply closed_world tr s =
     (if Shutdown s \<in> set tr then Inl (Exception ''connection closed'')
      else Inr (catalogue s))"
  "shutdown_reply closed_world tr s = None"
  by (simp_all add: closed_world_def)

lemma stubborn_world_replies [simp]:
  "initialize_reply stubborn_world tr s = None"
  "list_tools_reply stubborn_world tr s = Inr (catalogue s)"
  "shutdown_reply stubborn_world tr s =
     (if get_control_name s = ''A'' then Some (Exception ''shutdown failed'') else None)"
  by (simp_all add: stubborn_world_def)

lemma url_listing_fails_world_replies [simp]:
  "initialize_reply url_listing_fails_world tr s = None"
  "list_tools_reply url_listing_fails_world tr s =
     (if url (config s) = None then Inr (catalogue s) else Inl (Exception ''listing failed''))"
  by (simp_all add: url_listing_fails_world_def)

lemma late_listing_world_replies [simp]:
  "initialize_reply late_listing_world tr s = None"
  "list_tools_reply late_listing_world tr s =
     (if length tr < 2 then Inl (Exception ''listing failed'') else Inr (catalogue s))"
  by (simp_all add: late_listing_world_def)

lemma example_urls [simp]:
  "url (config serverA) = None" "url (config serverA2) = Some ''http://a''"
  by (simp_all add: serverA_def serverA2_def cfgA_def cfgA_alt_def)

lemma unreachable_B_world_replies [simp]:
  "initialize_reply unreachable_B_world tr s =
     (if get_control_name s = ''B'' then Some (Exception ''connection refused'') else None)"
  "list_tools_reply unreachable_B_world tr s = Inr (catalogue s)"
  by (simp_all add: unreachable_B_world_def)

lemma add_A_to_new:
  assumes "initialize_reply w [] serverA = None"
    and "list_tools_reply w [Initialize serverA] serverA = Inr [t1, t2]"
  shows "add_server w cfgA (new_controller cfgs) = (Inr (), state_A\<lparr>configs := cfgs\<rparr>)"
proof -
  have s: "serverA = \<lparr>oid = next_oid (new_controller cfgs), config = cfgA\<rparr>"
    by (simp add: serverA_def new_controller_def)
  have "add_server w cfgA (new_controller cfgs) =
      (Inr (), (new_controller cfgs)\<lparr>next_oid := Suc (next_oid (new_controller cfgs)),
         trace := trace (new_controller cfgs) @ [Initialize serverA, ListTools serverA],
         servers_map := (servers_map (new_controller cfgs))(name cfgA \<mapsto> serverA),
         all_servers_tools := all_servers_tools (new_controller cfgs) @ [(serverA, [t1, t2])],
         tools_map := insert_tools (tools_map (new_controller cfgs)) [t1, t2]\<rparr>)"
    using assms by (intro add_server_returns [OF s]) (simp_all add: new_controller_def)
  then show ?thesis
    by (simp add: new_controller_def state_A_def)
qed

lemma add_B_to_A:
  assumes "initialize_reply w (trace state_A) serverB = None"
    and "list_tools_reply w (trace state_A @ [Initialize serverB]) serverB = Inr [t3]"
  shows "add_server w cfgB (state_A\<lparr>configs := cfgs\<rparr>) = (Inr (), state_AB\<lparr>configs := cfgs\<rparr>)"
proof -
  have s: "serverB = \<lparr>oid = next_oid (state_A\<lparr>configs := cfgs\<rparr>), config = cfgB\<rparr>"
    by (simp add: serverB_def state_A_def)
  from assms add_server_returns [OF s, of w "[t3]"] show ?thesis
    by (simp add: state_A_def state_AB_def)
qed

lemma state_configs [simp]:
  "state_A\<lparr>configs := []\<rparr> = state_A" "state_AB\<lparr>configs := []\<rparr> = state_AB"
  by (simp_all add: state_A_def state_AB_def)

lemma registry_A_examples [simp]:
  "registry_A steady_world = state_A" "registry_A forgetful_world = state_A"
  "registry_A closed_world = state_A" "registry_A stubborn_world = state_A"
  by (simp_all add: registry_A_def add_A_to_new)

lemma registry_AB_examples [simp]:
  "registry_AB steady_world = state_AB" "registry_AB stubborn_world = state_AB"
proof -
  have "add_server steady_world cfgB state_A = (Inr (), state_AB)"
    using add_B_to_A [of steady_world "[]"] by simp
  then show "registry_AB steady_world = state_AB"
    by (simp add: registry_AB_def add_A_to_new)
  have "add_server stubborn_world cfgB state_A = (Inr (), state_AB)"
    using add_B_to_A [of stubborn_world "[]"] by simp
  then show "registry_AB stubborn_world = state_AB"
    by (simp add: registry_AB_def add_A_to_new)
qed

lemma remove_A_from_A:
  assumes "shutdown_reply w (trace state_A) serverA = None"
    and "list_tools_reply w (trace state_A @ [Shutdown serverA]) serverA = Inr tools_to_remove"
  shows "remove_server w ''A'' state_A =
           (Inr (), state_A\<lparr>servers_map := Map.empty, all_servers_tools := [],
                            tools_map := delete_tools (tools_map state_A) tools_to_remove,
                            trace := [Initialize serverA, ListTools serverA,
                                      Shutdown serverA, ListTools serverA]\<rparr>)"
proof -
  have "servers_map state_A ''A'' = Some serverA"
    by (simp add: state_A_def)
  from remove_server_returns [OF this assms] show ?thesis
    by (simp add: state_A_def)
qed

subsection \<open>Server identities\<close>

lemma ran_upd_subset: "ran (m(k \<mapsto> v)) \<subseteq> insert v (ran m)"
  by (auto simp: ran_def)

lemma ran_del_subset: "ran (m(k := None)) \<subseteq> ran m"
  by (auto simp: ran_def split: if_splits)

lemma heap_ok_new: "heap_ok (new_controller cfgs)"
  by (simp add: heap_ok_def new_controller_def)

lemma heap_ok_add: 
  assumes "heap_ok st"
  shows "heap_ok (snd (add_server w cfg st))"
proof -
  define server where "server = \<lparr>oid = next_oid st, config = cfg\<rparr>"
  have oid: "oid server < Suc (next_oid st)" by (simp add: server_def)
  from assms have old: "\<And>s ts. (s, ts) \<in> set (all_servers_tools st) \<Longrightarrow> oid s < Suc (next_oid st)"
    and ran: "\<And>s. s \<in> ran (servers_map st) \<Longrightarrow> oid s < Suc (next_oid st)"
    by (auto simp: heap_ok_def list_all_iff less_Suc_eq)
  have upd: "\<And>s. s \<in> ran ((servers_map st)(name cfg \<mapsto> server)) \<Longrightarrow> oid s < Suc (next_oid st)"
    using ran oid ran_upd_subset [of "servers_map st" "name cfg" server] by blast
  show ?thesis
  proof (cases "initialize_reply w (trace st) server")
    case (Some e)
    show ?thesis
      unfolding add_server_initialize_raises [OF server_def Some]
      using old ran by (auto simp: heap_ok_def list_all_iff)
  next
    case None
    show ?thesis
    proof (cases "list_tools_reply w (trace st @ [Initialize server]) server")
      case (Inl e)
      show ?thesis
        unfolding add_server_list_tools_raises [OF server_def None Inl]
        using old upd by (auto simp: heap_ok_def list_all_iff)
    next
      case (Inr tools)
      show ?thesis
        unfolding add_server_returns [OF server_def None Inr]
        using old upd oid by (auto simp: heap_ok_def list_all_iff)
    qed
  qed
qed

lemma heap_ok_remove:
  assumes "heap_ok st"
  shows "heap_ok (snd (remove_server w n st))"
proof (cases "servers_map st n")
  case None
  with assms show ?thesis by (simp add: remove_server_def)
next
  case (Some server)
  from assms have old: "\<And>s ts. (s, ts) \<in> set (all_servers_tools st) \<Longrightarrow> oid s < next_oid st"
    and ran: "\<And>s. s \<in> ran (servers_map st) \<Longrightarrow> oid s < next_oid st"
    by (auto simp: heap_ok_def list_all_iff)
  have del: "\<And>s. s \<in> ran ((servers_map st)(n := None)) \<Longrightarrow> oid s < next_oid st"
    using ran ran_del_subset [of "servers_map st" n] by blast
  show ?thesis
  proof (cases "shutdown_reply w (trace st) server")
    case (Some e)
    show ?thesis
      unfolding remove_server_shutdown_raises [OF \<open>servers_map st n = Some server\<close> Some]
      using old del by (auto simp: heap_ok_def list_all_iff)
  next
    case None
    show ?thesis
    proof (cases "list_tools_reply w (trace st @ [Shutdown server]) server")
      case (Inl e)
      show ?thesis
        unfolding remove_server_list_tools_raises [OF \<open>servers_map st n = Some server\<close> None Inl]
        using old del by (auto simp: heap_ok_def list_all_iff)
    next
      case (Inr tools)
      show ?thesis
        unfolding remove_server_returns [OF \<open>servers_map st n = Some server\<close> None Inr]
        using old del by (auto simp: heap_ok_def list_all_iff)
    qed
  qed
qed

lemma heap_ok_run: "heap_ok st \<Longrightarrow> heap_ok (run w cs st)"
proof (induction cs arbitrary: st)
  case Nil
  then show ?case by simp
next
  case (Cons c cs)
  then show ?case
    by (cases c) (simp_all add: heap_ok_add heap_ok_remove)
qed

lemma add_B_to_A_steady: "add_server steady_world cfgB state_A = (Inr (), state_AB)"
  using add_B_to_A [of steady_world "[]"] by simp

lemma remove_A_from_AB_steady:
  "remove_server steady_world ''A'' state_AB =
     (Inr (), state_AB\<lparr>servers_map := [''B'' \<mapsto> serverB],
                       all_servers_tools := [(serverB, [t3])],
                       tools_map := [''B-t3'' \<mapsto> t3],
                       trace := trace state_AB @ [Shutdown serverA, ListTools serverA]\<rparr>)"
proof -
  have "servers_map state_AB ''A'' = Some serverA"
    by (simp add: state_AB_def)
  from remove_server_returns [OF this, of steady_world "[t1, t2]"] show ?thesis
    by (simp add: state_AB_def fun_upd_twist)
qed

lemma add_A_to_A_steady:
  "add_server steady_world cfgA_alt state_A =
     (Inr (), state_A\<lparr>next_oid := Suc (Suc 0),
        trace := trace state_A @ [Initialize serverA2, ListTools serverA2],
        servers_map := [''A'' \<mapsto> serverA2],
        all_servers_tools := [(serverA, [t1, t2]), (serverA2, [t1_alt, t2])],
        tools_map := [''A-t1'' \<mapsto> t1_alt, ''A-t2'' \<mapsto> t2]\<rparr>)"
proof -
  have s: "serverA2 = \<lparr>oid = next_oid state_A, config = cfgA_alt\<rparr>"
    by (simp add: serverA2_def state_A_def)
  from add_server_returns [OF s, of steady_world "[t1_alt, t2]"] show ?thesis
    by (simp add: state_A_def)
qed

section \<open>The tool index along a sequence of calls\<close>

text \<open>
  Claim C1, as the code has it. Take any sequence of \<open>add_server\<close> and \<open>remove_server\<close>
  calls on a new controller in which every call is well behaved: an added control name is
  not registered at that moment, the calls on the connection succeed, the tools a new
  server lists have control names distinct from each other and from every key of the tool
  index, and a removed server, queried again after its shutdown, lists tools with the
  control names of the list captured when it was added. Then after each call (after every
  prefix of the sequence) the key set of \<open>_tools_map\<close> equals the set of the tool control names
  of the servers that are values of \<open>_servers_map\<close>.
\<close>

theorem tool_index_matches_registered_servers:
  assumes "well_behaved w cs (new_controller cfgs)" and "k \<le> length cs"
  shows "dom (tools_map (run w (take k cs) (new_controller cfgs))) =
         registered_tool_names (run w (take k cs) (new_controller cfgs))"
proof -
  from assms(1) have "well_behaved w (take k cs) (new_controller cfgs)"
    by (rule well_behaved_take)
  with tools_inv_new have inv: "tools_inv (run w (take k cs) (new_controller cfgs))"
    by (rule well_behaved_run)
  from tools_invD(3) [OF inv] registered_tool_names_inv [OF tools_invD(1) [OF inv]]
  show ?thesis by simp
qed

text \<open>
  The hypotheses hold for registering \<open>A\<close> and \<open>B\<close> and removing \<open>A\<close> in a world that
  always answers the same; the tool index then holds the tool of \<open>B\<close> only.
\<close>

theorem tool_index_matches_registered_servers_witness:
  "well_behaved steady_world [AddServer cfgA, AddServer cfgB, RemoveServer ''A'']
     (new_controller []) \<and>
   dom (tools_map (run steady_world (take 3 [AddServer cfgA, AddServer cfgB, RemoveServer ''A''])
          (new_controller []))) =
   registered_tool_names
     (run steady_world (take 3 [AddServer cfgA, AddServer cfgB, RemoveServer ''A''])
        (new_controller [])) \<and>
   dom (tools_map (run steady_world [AddServer cfgA, AddServer cfgB, RemoveServer ''A'']
          (new_controller []))) = {''B-t3''}"
proof -
  have a: "add_server_ok steady_world cfgA (new_controller [])"
    by (simp add: add_server_ok_def new_controller_def serverA_def [symmetric])
  have b: "add_server_ok steady_world cfgB state_A"
    by (simp add: add_server_ok_def state_A_def serverB_def [symmetric])
  have c: "remove_server_ok steady_world ''A'' state_AB"
    by (simp add: remove_server_ok_def state_AB_def captured_tools_def)
  have wb: "well_behaved steady_world [AddServer cfgA, AddServer cfgB, RemoveServer ''A'']
     (new_controller [])"
    using a b c by (simp add: add_A_to_new add_B_to_A_steady)
  have "dom (tools_map (run steady_world [AddServer cfgA, AddServer cfgB, RemoveServer ''A'']
          (new_controller []))) = {''B-t3''}"
    by (simp add: add_A_to_new add_B_to_A_steady remove_A_from_AB_steady)
  with wb tool_index_matches_registered_servers [OF wb, of 3] show ?thesis
    by simp
qed

text \<open>
  Without the hypothesis on the second query the property fails, with all control names
  distinct and both calls returning normally: \<open>A\<close> is added with two tools and removed;
  queried after its shutdown the connection lists no tool, so nothing is deleted from the
  tool index, which keeps both keys while no server is registered.
\<close>

theorem tool_index_counterexample:
  "results forgetful_world [AddServer cfgA, RemoveServer ''A''] (new_controller [])
     = [Inr (), Inr ()] \<and>
   dom (tools_map (run forgetful_world [AddServer cfgA, RemoveServer ''A''] (new_controller [])))
     = {''A-t1'', ''A-t2''} \<and>
   registered_tool_names (run forgetful_world [AddServer cfgA, RemoveServer ''A''] (new_controller []))
     = {}"
proof -
  have "remove_server forgetful_world ''A'' state_A =
           (Inr (), state_A\<lparr>servers_map := Map.empty, all_servers_tools := [],
                            tools_map := delete_tools (tools_map state_A) [],
                            trace := [Initialize serverA, ListTools serverA,
                                      Shutdown serverA, ListTools serverA]\<rparr>)"
    by (rule remove_A_from_A) (simp_all add: state_A_def)
  then show ?thesis
    by (simp add: add_A_to_new registered_tool_names_def) (auto simp: state_A_def)
qed

section \<open>Purging the tools of a removed server\<close>

text \<open>
  Claim C2, as the code has it. For a registered server whose connection shuts down
  without error, \<open>remove_server\<close> then calls \<open>list_tools\<close> on that connection again (the trace
  grows by a \<open>Shutdown\<close> and, after it, a \<open>ListTools\<close>), and the keys it deletes from the tool
  index are the control names of the tools this second query returns; the list captured at
  add time is not consulted.
\<close>

theorem remove_server_requeries:
  assumes "servers_map st n = Some server"
    and "shutdown_reply w (trace st) server = None"
    and "list_tools_reply w (trace st @ [Shutdown server]) server = Inr tools_to_remove"
    and "remove_server w n st = (r, st')"
  shows "r = Inr () \<and>
         trace st' = trace st @ [Shutdown server, ListTools server] \<and>
         tools_map st' = delete_tools (tools_map st) tools_to_remove \<and>
         dom (tools_map st') = dom (tools_map st) - control_name ` set tools_to_remove \<and>
         servers_map st' = (servers_map st)(n := None) \<and>
         all_servers_tools st' = filter (\<lambda>(s, t). s \<noteq> server) (all_servers_tools st)"
proof -
  from assms have st': "r = Inr ()" "st' = st\<lparr>servers_map := (servers_map st)(n := None),
                       trace := trace st @ [Shutdown server, ListTools server],
                       all_servers_tools := filter (\<lambda>(s, t). s \<noteq> server) (all_servers_tools st),
                       tools_map := delete_tools (tools_map st) tools_to_remove\<rparr>"
    using remove_server_returns [of st n server w tools_to_remove] by simp_all
  show ?thesis unfolding st' by (simp add: dom_delete_tools)
qed

theorem remove_server_requeries_witness:
  "servers_map state_A ''A'' = Some serverA \<and>
   shutdown_reply steady_world (trace state_A) serverA = None \<and>
   list_tools_reply steady_world (trace state_A @ [Shutdown serverA]) serverA = Inr [t1, t2] \<and>
   fst (remove_server steady_world ''A'' state_A) = Inr () \<and>
   trace (snd (remove_server steady_world ''A'' state_A)) =
     trace state_A @ [Shutdown serverA, ListTools serverA] \<and>
   dom (tools_map (snd (remove_server steady_world ''A'' state_A))) = {}"
proof -
  have 1: "servers_map state_A ''A'' = Some serverA"
    by (simp add: state_A_def)
  have 2: "shutdown_reply steady_world (trace state_A) serverA = None"
    by simp
  have 3: "list_tools_reply steady_world (trace state_A @ [Shutdown serverA]) serverA = Inr [t1, t2]"
    by simp
  have 4: "remove_server steady_world ''A'' state_A =
      (fst (remove_server steady_world ''A'' state_A), snd (remove_server steady_world ''A'' state_A))"
    by simp
  have "dom (tools_map state_A) = {''A-t1'', ''A-t2''}"
    by (auto simp: state_A_def)
  with remove_server_requeries [OF 1 2 3 4] 1 2 3 show ?thesis
    by auto
qed

text \<open>
  The list captured at add time is not what is purged. \<open>A\<close> was added with the tools
  \<open>t1\<close> and \<open>t2\<close>. Where the connection lists nothing after its shutdown, \<open>remove_server\<close>
  returns normally, the trace shows the query after the shutdown, and both tools stay in
  the tool index. Where the connection refuses the query after its shutdown,
  \<open>remove_server\<close> raises and the tools stay as well.
\<close>

theorem remove_server_requery_counterexample:
  "registry_A forgetful_world = state_A \<and>
   captured_tools state_A serverA = [t1, t2] \<and>
   fst (remove_server forgetful_world ''A'' state_A) = Inr () \<and>
   trace (snd (remove_server forgetful_world ''A'' state_A)) =
     [Initialize serverA, ListTools serverA, Shutdown serverA, ListTools serverA] \<and>
   tools_map (snd (remove_server forgetful_world ''A'' state_A)) ''A-t1'' = Some t1 \<and>
   tools_map (snd (remove_server forgetful_world ''A'' state_A)) ''A-t2'' = Some t2 \<and>
   registry_A closed_world = state_A \<and>
   fst (remove_server closed_world ''A'' state_A) = Inl (Exception ''connection closed'') \<and>
   tools_map (snd (remove_server closed_world ''A'' state_A)) ''A-t1'' = Some t1"
proof -
  have f: "remove_server forgetful_world ''A'' state_A =
           (Inr (), state_A\<lparr>servers_map := Map.empty, all_servers_tools := [],
                            tools_map := delete_tools (tools_map state_A) [],
                            trace := [Initialize serverA, ListTools serverA,
                                      Shutdown serverA, ListTools serverA]\<rparr>)"
    by (rule remove_A_from_A) (simp_all add: state_A_def)
  have "servers_map state_A ''A'' = Some serverA"
    by (simp add: state_A_def)
  from remove_server_list_tools_raises [OF this, of closed_world "Exception ''connection closed''"]
  have c: "remove_server closed_world ''A'' state_A =
           (Inl (Exception ''connection closed''),
            state_A\<lparr>servers_map := (servers_map state_A)(''A'' := None),
              trace := trace state_A @ [Shutdown serverA, ListTools serverA],
              all_servers_tools := filter (\<lambda>(s, t). s \<noteq> serverA) (all_servers_tools state_A)\<rparr>)"
    by simp
  show ?thesis
    unfolding f c by (simp add: captured_tools_def) (simp add: state_A_def)
qed

section \<open>Shutting the controller down\<close>

text \<open>
  Claim C3, as the code has it. \<open>shutdown\<close> shuts the connections of \<open>_all_servers_tools\<close>
  down in list order. If none of these shutdowns raises, it then closes the exit stack,
  once, after the last shutdown, and its outcome is that of the close. If the \<open>k\<close>-th
  shutdown is the first to raise, \<open>shutdown\<close> raises that exception at once: the
  connections after the \<open>k\<close>-th are not shut down and the exit stack is not closed by this
  call.
\<close>

theorem shutdown_closes_scope_after_clean_shutdowns:
  "((\<forall>i < length (all_servers_tools st). shutdown_answer w st i = None) \<longrightarrow>
      snd (shutdown w st) =
        st\<lparr>trace := trace st @ map Shutdown (map fst (all_servers_tools st)) @ [AClose]\<rparr> \<and>
      fst (shutdown w st) =
        (case aclose_reply w (trace st @ map Shutdown (map fst (all_servers_tools st))) of
           None \<Rightarrow> Inr () | Some e \<Rightarrow> Inl e)) \<and>
   (\<forall>k e. k < length (all_servers_tools st) \<and> (\<forall>i < k. shutdown_answer w st i = None) \<and>
           shutdown_answer w st k = Some e \<longrightarrow>
      shutdown w st =
        (Inl e, st\<lparr>trace := trace st @ map Shutdown (take (Suc k) (map fst (all_servers_tools st)))\<rparr>) \<and>
      AClose \<notin> set (drop (length (trace st)) (trace (snd (shutdown w st)))))"
proof (intro conjI allI impI)
  assume "\<forall>i < length (all_servers_tools st). shutdown_answer w st i = None"
  then have each: "shutdown_each w (all_servers_tools st) st =
      (Inr (), st\<lparr>trace := trace st @ map Shutdown (map fst (all_servers_tools st))\<rparr>)"
    unfolding shutdown_answer_def by (rule shutdown_each_all_ok)
  show "snd (shutdown w st) =
        st\<lparr>trace := trace st @ map Shutdown (map fst (all_servers_tools st)) @ [AClose]\<rparr>"
    by (simp add: shutdown_def each exit_stack_aclose_def)
  show "fst (shutdown w st) =
        (case aclose_reply w (trace st @ map Shutdown (map fst (all_servers_tools st))) of
           None \<Rightarrow> Inr () | Some e \<Rightarrow> Inl e)"
    by (simp add: shutdown_def each exit_stack_aclose_def)
next
  fix k e
  assume a: "k < length (all_servers_tools st) \<and> (\<forall>i < k. shutdown_answer w st i = None) \<and>
           shutdown_answer w st k = Some e"
  then have each: "shutdown_each w (all_servers_tools st) st =
      (Inl e, st\<lparr>trace := trace st @ map Shutdown (take (Suc k) (map fst (all_servers_tools st)))\<rparr>)"
    unfolding shutdown_answer_def by (intro shutdown_each_first_failure) simp_all
  show "shutdown w st =
        (Inl e, st\<lparr>trace := trace st @ map Shutdown (take (Suc k) (map fst (all_servers_tools st)))\<rparr>)"
    by (simp add: shutdown_def each)
  show "AClose \<notin> set (drop (length (trace st)) (trace (snd (shutdown w st))))"
    by (auto simp: shutdown_def each)
qed

theorem shutdown_closes_scope_after_clean_shutdowns_witness:
  "length (all_servers_tools state_AB) = 2 \<and>
   shutdown_answer steady_world state_AB 0 = None \<and>
   shutdown_answer steady_world state_AB 1 = None \<and>
   shutdown steady_world state_AB =
     (Inr (), state_AB\<lparr>trace := trace state_AB @ [Shutdown serverA, Shutdown serverB, AClose]\<rparr>) \<and>
   shutdown_answer stubborn_world state_AB 0 = Some (Exception ''shutdown failed'') \<and>
   shutdown stubborn_world state_AB =
     (Inl (Exception ''shutdown failed''), state_AB\<lparr>trace := trace state_AB @ [Shutdown serverA]\<rparr>)"
proof -
  have len: "length (all_servers_tools state_AB) = 2"
    by (simp add: state_AB_def)
  have ok: "\<forall>i < length (all_servers_tools state_AB). shutdown_answer steady_world state_AB i = None"
    by (simp add: shutdown_answer_def)
  have bad: "0 < length (all_servers_tools state_AB) \<and>
      (\<forall>i < 0. shutdown_answer stubborn_world state_AB i = None) \<and>
      shutdown_answer stubborn_world state_AB 0 = Some (Exception ''shutdown failed'')"
    by (simp add: shutdown_answer_def state_AB_def)
  note scope = shutdown_closes_scope_after_clean_shutdowns
  from scope [of state_AB steady_world, THEN conjunct1, THEN mp, OF ok]
  have "shutdown steady_world state_AB =
     (Inr (), state_AB\<lparr>trace := trace state_AB @ [Shutdown serverA, Shutdown serverB, AClose]\<rparr>)"
    by (simp add: prod_eq_iff) (simp add: state_AB_def)
  moreover
  from scope [of state_AB stubborn_world, THEN conjunct2, THEN spec, THEN spec, THEN mp, OF bad]
  have "shutdown stubborn_world state_AB =
     (Inl (Exception ''shutdown failed''), state_AB\<lparr>trace := trace state_AB @ [Shutdown serverA]\<rparr>)"
    by (simp add: state_AB_def)
  ultimately show ?thesis
    using len bad ok by (simp add: shutdown_answer_def)
qed

text \<open>
  The exit stack is not closed when a connection fails to shut down: with \<open>A\<close> and \<open>B\<close>
  registered and the shutdown of \<open>A\<close> raising, \<open>shutdown\<close> raises after the one call on
  \<open>A\<close>; \<open>B\<close> is never shut down and \<open>aclose\<close> is never called.
\<close>

theorem shutdown_counterexample:
  "registry_AB stubborn_world = state_AB \<and>
   shutdown stubborn_world state_AB =
     (Inl (Exception ''shutdown failed''), state_AB\<lparr>trace := trace state_AB @ [Shutdown serverA]\<rparr>) \<and>
   AClose \<notin> set (trace (snd (shutdown stubborn_world state_AB))) \<and>
   Shutdown serverB \<notin> set (trace (snd (shutdown stubborn_world state_AB)))"
proof -
  have "shutdown_each stubborn_world (all_servers_tools state_AB) state_AB =
     (Inl (Exception ''shutdown failed''), state_AB\<lparr>trace := trace state_AB @ [Shutdown serverA]\<rparr>)"
    by (simp add: state_AB_def server_shutdown_def)
  then have "shutdown stubborn_world state_AB =
     (Inl (Exception ''shutdown failed''), state_AB\<lparr>trace := trace state_AB @ [Shutdown serverA]\<rparr>)"
    by (simp add: shutdown_def)
  then show ?thesis
    by (simp add: state_AB_def)
qed

section \<open>Adding a server and removing it again\<close>

text \<open>
  Claim C4, as the code has it. Take a registry state whose server map has no key equal
  to the new control name and whose tool index has no key equal to a control name of the
  new server's tools (and whose server objects were all constructed earlier). If the
  calls on the new connection succeed and the connection, queried again after its
  shutdown, lists tools with the same control names as at add time, then \<open>add_server\<close>
  followed at once by \<open>remove_server\<close> of the same control name returns normally twice and
  leaves \<open>_servers_map\<close>, \<open>_tools_map\<close> and \<open>_all_servers_tools\<close> as they were before the add.
\<close>

theorem add_then_remove_restores:
  assumes "server = \<lparr>oid = next_oid st, config = cfg\<rparr>"
    and heap: "heap_ok st"
    and "servers_map st (name cfg) = None"
    and "\<forall>tool \<in> set tools. tools_map st (control_name tool) = None"
    and "initialize_reply w (trace st) server = None"
    and "list_tools_reply w (trace st @ [Initialize server]) server = Inr tools"
    and "shutdown_reply w (trace st @ [Initialize server, ListTools server]) server = None"
    and "list_tools_reply w (trace st @ [Initialize server, ListTools server, Shutdown server]) server
           = Inr tools_again"
    and "control_name ` set tools_again = control_name ` set tools"
    and "add_server w cfg st = (r1, st1)"
    and "remove_server w (name cfg) st1 = (r2, st2)"
  shows "r1 = Inr () \<and> r2 = Inr () \<and> servers_map st2 = servers_map st \<and>
         tools_map st2 = tools_map st \<and> all_servers_tools st2 = all_servers_tools st"
proof -
  have st1: "r1 = Inr ()" "servers_map st1 = (servers_map st)(name cfg \<mapsto> server)"
    "trace st1 = trace st @ [Initialize server, ListTools server]"
    "all_servers_tools st1 = all_servers_tools st @ [(server, tools)]"
    "tools_map st1 = insert_tools (tools_map st) tools"
    using assms add_server_returns [of server st cfg w tools] by auto
  have rm: "remove_server w (name cfg) st1 =
           (Inr (), st1\<lparr>servers_map := (servers_map st1)(name cfg := None),
                       trace := trace st1 @ [Shutdown server, ListTools server],
                       all_servers_tools := filter (\<lambda>(s, t). s \<noteq> server) (all_servers_tools st1),
                       tools_map := delete_tools (tools_map st1) tools_again\<rparr>)"
    using assms st1 by (intro remove_server_returns) auto
  have "\<forall>p \<in> set (all_servers_tools st). fst p \<noteq> server"
    using heap assms(1) by (auto simp: heap_ok_def list_all_iff)
  then have flt: "filter (\<lambda>(s, t). s \<noteq> server) (all_servers_tools st) = all_servers_tools st"
    by (auto simp: filter_id_conv)
  have "(servers_map st)(name cfg := None) = servers_map st"
    using assms(3) by auto
  then show ?thesis
    using rm assms st1 flt by (auto simp: delete_insert_tools)
qed

theorem add_then_remove_restores_witness:
  "heap_ok (new_controller []) \<and>
   servers_map (new_controller []) (name cfgA) = None \<and>
   tools_map (new_controller []) (control_name t1) = None \<and>
   tools_map (new_controller []) (control_name t2) = None \<and>
   add_server steady_world cfgA (new_controller []) = (Inr (), state_A) \<and>
   fst (remove_server steady_world (name cfgA) state_A) = Inr () \<and>
   servers_map (snd (remove_server steady_world (name cfgA) state_A)) = Map.empty \<and>
   tools_map (snd (remove_server steady_world (name cfgA) state_A)) = Map.empty \<and>
   all_servers_tools (snd (remove_server steady_world (name cfgA) state_A)) = []"
proof -
  have s: "serverA = \<lparr>oid = next_oid (new_controller []), config = cfgA\<rparr>"
    by (simp add: serverA_def new_controller_def)
  have new: "\<forall>tool \<in> set [t1, t2]. tools_map (new_controller []) (control_name tool) = None"
    by (simp add: new_controller_def)
  have add: "add_server steady_world cfgA (new_controller []) = (Inr (), state_A)"
    by (simp add: add_A_to_new)
  have rm: "remove_server steady_world (name cfgA) state_A =
      (fst (remove_server steady_world (name cfgA) state_A),
       snd (remove_server steady_world (name cfgA) state_A))"
    by simp
  from add_then_remove_restores [where tools_again = "[t1, t2]",
      OF s heap_ok_new _ new _ _ _ _ _ add rm]
  have "fst (remove_server steady_world (name cfgA) state_A) = Inr () \<and>
     servers_map (snd (remove_server steady_world (name cfgA) state_A)) =
       servers_map (new_controller []) \<and>
     tools_map (snd (remove_server steady_world (name cfgA) state_A)) =
       tools_map (new_controller []) \<and>
     all_servers_tools (snd (remove_server steady_world (name cfgA) state_A)) =
       all_servers_tools (new_controller [])"
    by (simp add: new_controller_def)
  with add heap_ok_new [of "[]"] show ?thesis
    by (simp add: new_controller_def)
qed

text \<open>
  Without the hypothesis on the second query the state is not restored: on an empty
  registry, where the connection lists nothing after its shutdown, both calls return
  normally and the tool index, empty before, still holds the first tool of \<open>A\<close>.
\<close>

theorem add_then_remove_counterexample:
  "servers_map (new_controller []) (name cfgA) = None \<and>
   tools_map (new_controller []) = Map.empty \<and>
   add_server forgetful_world cfgA (new_controller []) = (Inr (), state_A) \<and>
   fst (remove_server forgetful_world (name cfgA) state_A) = Inr () \<and>
   tools_map (snd (remove_server forgetful_world (name cfgA) state_A)) ''A-t1'' = Some t1"
proof -
  have "remove_server forgetful_world ''A'' state_A =
           (Inr (), state_A\<lparr>servers_map := Map.empty, all_servers_tools := [],
                            tools_map := delete_tools (tools_map state_A) [],
                            trace := [Initialize serverA, ListTools serverA,
                                      Shutdown serverA, ListTools serverA]\<rparr>)"
    by (rule remove_A_from_A) (simp_all add: state_A_def)
  then show ?thesis
    by (simp add: add_A_to_new) (simp add: new_controller_def state_A_def)
qed

section \<open>Initialising from the configured servers\<close>

text \<open>
  Claim C5, as the code has it. \<open>initialize\<close> registers the configurations of \<open>configs\<close> one
  after the other in list order: when all registrations succeed, the servers appended to
  the ordered list are those of the configurations, in their order, and the controller is
  marked initialised. When the configurations \<open>registered\<close> succeed and the next one, \<open>cfg\<close>,
  raises, \<open>initialize\<close> raises that exception and ends in the state the failed registration
  left: nothing of \<open>remaining\<close> is registered, the ordered list and the tool index are those
  reached after \<open>registered\<close>, and the server map is unchanged at every name but that of
  \<open>cfg\<close>. So when the control name of \<open>cfg\<close> is not registered at the failure, every server
  registered before it stays in the server map. The controller is not marked initialised.
\<close>

theorem initialize_aborts_without_rollback:
  "(\<forall>st'. register_each w (configs st) st = (Inr (), st') \<longrightarrow>
      initialize w st = (Inr (), st'\<lparr>initialized := True\<rparr>) \<and>
      map (config \<circ> fst) (all_servers_tools st') =
        map (config \<circ> fst) (all_servers_tools st) @ configs st) \<and>
   (\<forall>registered cfg remaining st1 e st2.
      configs st = registered @ cfg # remaining \<and>
      register_each w registered st = (Inr (), st1) \<and>
      register_downstream_mcp_server w cfg st1 = (Inl e, st2) \<longrightarrow>
      initialize w st = (Inl e, st2) \<and>
      all_servers_tools st2 = all_servers_tools st1 \<and>
      tools_map st2 = tools_map st1 \<and>
      (\<forall>n. n \<noteq> name cfg \<longrightarrow> servers_map st2 n = servers_map st1 n) \<and>
      (servers_map st1 (name cfg) = None \<longrightarrow>
         (\<forall>n s. servers_map st1 n = Some s \<longrightarrow> servers_map st2 n = Some s)) \<and>
      map (config \<circ> fst) (all_servers_tools st2) =
        map (config \<circ> fst) (all_servers_tools st) @ registered \<and>
      is_initialized st2 = is_initialized st)"
proof (intro conjI allI impI)
  fix st'
  assume ok: "register_each w (configs st) st = (Inr (), st')"
  show "initialize w st = (Inr (), st'\<lparr>initialized := True\<rparr>)"
    by (simp add: initialize_def ok)
  from register_each_Inr [OF ok]
  show "map (config \<circ> fst) (all_servers_tools st') =
        map (config \<circ> fst) (all_servers_tools st) @ configs st"
    by simp
next
  fix registered cfg remaining st1 e st2
  assume a: "configs st = registered @ cfg # remaining \<and>
      register_each w registered st = (Inr (), st1) \<and>
      register_downstream_mcp_server w cfg st1 = (Inl e, st2)"
  then have cfgs: "configs st = registered @ cfg # remaining"
    and pre: "register_each w registered st = (Inr (), st1)"
    and fail: "add_server w cfg st1 = (Inl e, st2)"
    by (simp_all add: register_is_add_server)
  have "register_each w (configs st) st = (Inl e, st2)"
    by (simp add: cfgs register_each_append pre register_is_add_server fail)
  then show "initialize w st = (Inl e, st2)"
    by (simp add: initialize_def)
  note frame = add_server_Inl_frame [OF fail]
  from frame show "all_servers_tools st2 = all_servers_tools st1" by simp
  from frame show "tools_map st2 = tools_map st1" by simp
  from frame show "\<And>n. n \<noteq> name cfg \<Longrightarrow> servers_map st2 n = servers_map st1 n" by simp
  from frame show "\<And>n s. servers_map st1 (name cfg) = None \<Longrightarrow> servers_map st1 n = Some s \<Longrightarrow>
      servers_map st2 n = Some s"
    by (metis option.distinct(1))
  from frame register_each_Inr [OF pre]
  show "map (config \<circ> fst) (all_servers_tools st2) =
        map (config \<circ> fst) (all_servers_tools st) @ registered"
    by simp
  from frame register_each_Inr [OF pre]
  show "is_initialized st2 = is_initialized st"
    by (simp add: is_initialized_def)
qed

theorem initialize_aborts_without_rollback_witness:
  "register_each steady_world (configs (new_controller [cfgA, cfgB])) (new_controller [cfgA, cfgB]) =
     (Inr (), state_AB\<lparr>configs := [cfgA, cfgB]\<rparr>) \<and>
   initialize steady_world (new_controller [cfgA, cfgB]) =
     (Inr (), state_AB\<lparr>configs := [cfgA, cfgB], initialized := True\<rparr>) \<and>
   configs (new_controller [cfgA, cfgB, cfgA]) = [cfgA] @ cfgB # [cfgA] \<and>
   register_each unreachable_B_world [cfgA] (new_controller [cfgA, cfgB, cfgA]) =
     (Inr (), state_A\<lparr>configs := [cfgA, cfgB, cfgA]\<rparr>) \<and>
   fst (register_downstream_mcp_server unreachable_B_world cfgB
          (state_A\<lparr>configs := [cfgA, cfgB, cfgA]\<rparr>)) = Inl (Exception ''connection refused'') \<and>
   fst (initialize unreachable_B_world (new_controller [cfgA, cfgB, cfgA])) =
     Inl (Exception ''connection refused'') \<and>
   all_servers_tools (snd (initialize unreachable_B_world (new_controller [cfgA, cfgB, cfgA]))) =
     [(serverA, [t1, t2])] \<and>
   servers_map (state_A\<lparr>configs := [cfgA, cfgB, cfgA]\<rparr>) (name cfgB) = None \<and>
   servers_map (state_A\<lparr>configs := [cfgA, cfgB, cfgA]\<rparr>) ''A'' = Some serverA \<and>
   servers_map (snd (initialize unreachable_B_world (new_controller [cfgA, cfgB, cfgA]))) ''A'' =
     Some serverA"
proof -
  let ?st = "new_controller [cfgA, cfgB, cfgA]"
  let ?st1 = "state_A\<lparr>configs := [cfgA, cfgB, cfgA]\<rparr>"
  let ?st2 = "snd (register_downstream_mcp_server unreachable_B_world cfgB ?st1)"
  have ok: "register_each steady_world (configs (new_controller [cfgA, cfgB])) (new_controller [cfgA, cfgB]) =
     (Inr (), state_AB\<lparr>configs := [cfgA, cfgB]\<rparr>)"
    using add_B_to_A [of steady_world "[cfgA, cfgB]"]
    by (simp add: register_is_add_server add_A_to_new)
  have cfgs: "configs ?st = [cfgA] @ cfgB # [cfgA]"
    by simp
  have pre: "register_each unreachable_B_world [cfgA] ?st = (Inr (), ?st1)"
    by (simp add: register_is_add_server add_A_to_new)
  have s: "serverB = \<lparr>oid = next_oid ?st1, config = cfgB\<rparr>"
    by (simp add: serverB_def state_A_def)
  have fail: "register_downstream_mcp_server unreachable_B_world cfgB ?st1 =
      (Inl (Exception ''connection refused''), ?st2)"
    using add_server_initialize_raises [OF s, of unreachable_B_world "Exception ''connection refused''"]
    by (simp add: register_is_add_server)
  note claim = initialize_aborts_without_rollback
  from claim [of steady_world "new_controller [cfgA, cfgB]", THEN conjunct1, THEN spec,
      THEN mp, OF ok]
  have 1: "initialize steady_world (new_controller [cfgA, cfgB]) =
     (Inr (), state_AB\<lparr>configs := [cfgA, cfgB], initialized := True\<rparr>)"
    by simp
  from claim [of unreachable_B_world ?st, THEN conjunct2, THEN spec, THEN spec, THEN spec,
      THEN spec, THEN spec, THEN spec, THEN mp, OF conjI [OF cfgs conjI [OF pre fail]]]
  have 2: "initialize unreachable_B_world ?st = (Inl (Exception ''connection refused''), ?st2)"
    and 3: "all_servers_tools ?st2 = all_servers_tools ?st1"
    and 4: "servers_map ?st1 (name cfgB) = None \<longrightarrow>
      (\<forall>n s. servers_map ?st1 n = Some s \<longrightarrow> servers_map ?st2 n = Some s)"
    by simp_all
  have h1: "servers_map ?st1 (name cfgB) = None"
    by (simp add: state_A_def)
  have h2: "servers_map ?st1 ''A'' = Some serverA"
    by (simp add: state_A_def)
  have f: "fst (register_downstream_mcp_server unreachable_B_world cfgB ?st1) =
      Inl (Exception ''connection refused'')"
    unfolding fail [THEN arg_cong, of fst] by simp
  have c2: "fst (initialize unreachable_B_world ?st) = Inl (Exception ''connection refused'')"
    unfolding 2 by simp
  have c3: "all_servers_tools (snd (initialize unreachable_B_world ?st)) = [(serverA, [t1, t2])]"
    unfolding 2 snd_conv 3 by (simp add: state_A_def)
  from 4 [THEN mp, OF h1, THEN spec, THEN spec, THEN mp, OF h2]
  have c4: "servers_map (snd (initialize unreachable_B_world ?st)) ''A'' = Some serverA"
    unfolding 2 snd_conv .
  from ok 1 cfgs pre f c2 c3 h1 h2 c4 show ?thesis
    by (intro conjI) assumption+
qed

text \<open>
  A server registered before the failure does not always stay in the server map. The
  configurations are \<open>A\<close> and a second one under the same control name; the first is
  registered, the second connection initialises, which overwrites the entry of the server
  map, and then fails to list its tools. \<open>initialize\<close> raises, and the server map holds the
  failed server under \<open>A\<close>, not the one registered before; the ordered list and the tool
  index still hold the first.
\<close>

theorem initialize_rollback_counterexample:
  "register_each url_listing_fails_world [cfgA] (new_controller [cfgA, cfgA_alt]) =
     (Inr (), state_A\<lparr>configs := [cfgA, cfgA_alt]\<rparr>) \<and>
   servers_map (state_A\<lparr>configs := [cfgA, cfgA_alt]\<rparr>) ''A'' = Some serverA \<and>
   fst (initialize url_listing_fails_world (new_controller [cfgA, cfgA_alt])) =
     Inl (Exception ''listing failed'') \<and>
   servers_map (snd (initialize url_listing_fails_world (new_controller [cfgA, cfgA_alt]))) ''A'' =
     Some serverA2 \<and>
   serverA2 \<noteq> serverA \<and>
   all_servers_tools (snd (initialize url_listing_fails_world (new_controller [cfgA, cfgA_alt]))) =
     [(serverA, [t1, t2])] \<and>
   tools_map (snd (initialize url_listing_fails_world (new_controller [cfgA, cfgA_alt]))) ''A-t1'' =
     Some t1"
proof -
  let ?st1 = "state_A\<lparr>configs := [cfgA, cfgA_alt]\<rparr>"
  have pre: "add_server url_listing_fails_world cfgA (new_controller [cfgA, cfgA_alt]) =
      (Inr (), ?st1)"
    by (simp add: add_A_to_new)
  have s: "serverA2 = \<lparr>oid = next_oid ?st1, config = cfgA_alt\<rparr>"
    by (simp add: serverA2_def state_A_def)
  have fail: "add_server url_listing_fails_world cfgA_alt ?st1 =
      (Inl (Exception ''listing failed''),
       ?st1\<lparr>next_oid := Suc (next_oid ?st1),
             trace := trace ?st1 @ [Initialize serverA2, ListTools serverA2],
             servers_map := (servers_map ?st1)(name cfgA_alt \<mapsto> serverA2)\<rparr>)"
    by (rule add_server_list_tools_raises [OF s]) simp_all
  show ?thesis
    by (simp add: initialize_def register_is_add_server pre fail) (simp add: state_A_def)
qed

section \<open>Adding under a control name that is taken\<close>

text \<open>
  Claim C6. Let the control name of the configuration be a key of the server map already,
  and let the calls on the new connection succeed. Then \<open>add_server\<close> returns normally, the
  server map holds the new server object, which is not the old one, under that name, and
  every control name of a listed tool is mapped to the last tool of the list with that
  control name, whatever the tool index held under it before. No check for a duplicate is
  made.
\<close>

theorem add_server_overwrites:
  assumes "server = \<lparr>oid = next_oid st, config = cfg\<rparr>"
    and "initialize_reply w (trace st) server = None"
    and "list_tools_reply w (trace st @ [Initialize server]) server = Inr tools"
    and "servers_map st (name cfg) = Some old"
    and "oid old < next_oid st"
    and "add_server w cfg st = (r, st')"
  shows "r = Inr () \<and> servers_map st' (name cfg) = Some server \<and> server \<noteq> old \<and>
         (\<forall>tool \<in> set tools.
            tools_map st' (control_name tool) =
              Some (last (filter (\<lambda>t'. control_name t' = control_name tool) tools)))"
  using assms add_server_returns [of server st cfg w tools]
  by (auto simp: insert_tools_last)

theorem add_server_overwrites_witness:
  "servers_map state_A (name cfgA_alt) = Some serverA \<and>
   oid serverA < next_oid state_A \<and>
   fst (add_server steady_world cfgA_alt state_A) = Inr () \<and>
   servers_map (snd (add_server steady_world cfgA_alt state_A)) (name cfgA_alt) = Some serverA2 \<and>
   serverA2 \<noteq> serverA \<and>
   tools_map state_A (control_name t1_alt) = Some t1 \<and>
   t1_alt \<noteq> t1 \<and>
   tools_map (snd (add_server steady_world cfgA_alt state_A)) (control_name t1_alt) = Some t1_alt"
proof -
  have s: "serverA2 = \<lparr>oid = next_oid state_A, config = cfgA_alt\<rparr>"
    by (simp add: serverA2_def state_A_def)
  have old: "servers_map state_A (name cfgA_alt) = Some serverA"
    by (simp add: state_A_def)
  have oid: "oid serverA < next_oid state_A"
    by (simp add: state_A_def serverA_def)
  have add: "add_server steady_world cfgA_alt state_A =
      (fst (add_server steady_world cfgA_alt state_A), snd (add_server steady_world cfgA_alt state_A))"
    by simp
  have tool: "tools_map state_A (control_name t1_alt) = Some t1" "t1_alt \<noteq> t1"
    by (simp_all add: state_A_def t1_def t1_alt_def)
  from add_server_overwrites [where tools = "[t1_alt, t2]", OF s _ _ old oid add] old oid tool
  show ?thesis by simp
qed

section \<open>The order of list\_all\_servers\_tools\<close>

text \<open>
  Claim C7, as the code has it. Take any sequence of \<open>add_server\<close> and \<open>remove_server\<close>
  calls on a new controller in which every call returns normally and no \<open>add_server\<close> uses
  a control name that is registered at that moment. Then \<open>list_all_servers_tools\<close> lists
  exactly the currently registered servers, in registration order: its control names are
  the names added and not removed since, in the order of their registration, they are
  distinct, they are the keys of the server map, and each listed server is the value of
  the server map under its name.
\<close>

theorem list_all_servers_tools_in_registration_order:
  assumes "orderly w cs (new_controller cfgs)"
  shows "map (\<lambda>(s, ts). get_control_name s)
           (list_all_servers_tools (run w cs (new_controller cfgs))) = registration_order cs [] \<and>
         distinct (registration_order cs []) \<and>
         dom (servers_map (run w cs (new_controller cfgs))) = set (registration_order cs []) \<and>
         (\<forall>(s, ts) \<in> set (list_all_servers_tools (run w cs (new_controller cfgs))).
            servers_map (run w cs (new_controller cfgs)) (get_control_name s) = Some s)"
proof -
  let ?st = "run w cs (new_controller cfgs)"
  have "registered_names (new_controller cfgs) = []"
    by (simp add: registered_names_def list_all_servers_tools_def)
  with orderly_run [OF registry_inv_new assms]
  have inv: "registry_inv ?st" and names: "registered_names ?st = registration_order cs []"
    by simp_all
  from names have 1: "map (\<lambda>(s, ts). get_control_name s) (list_all_servers_tools ?st) =
      registration_order cs []"
    by (simp add: registered_names_def)
  from registry_inv_distinct [OF inv] have 2: "distinct (registration_order cs [])"
    by (simp add: names [symmetric] registered_names_entries)
  have 3: "dom (servers_map ?st) = set (registration_order cs [])"
    unfolding registry_inv_map [OF inv] names [symmetric] registered_names_entries
    by (simp add: dom_map_of_conv_image_fst)
  have 4: "\<forall>(s, ts) \<in> set (list_all_servers_tools ?st).
            servers_map ?st (get_control_name s) = Some s"
    using registry_inv_lookup [OF inv] by (auto simp: list_all_servers_tools_def)
  from 1 2 3 4 show ?thesis by (intro conjI) assumption+
qed

theorem list_all_servers_tools_in_registration_order_witness:
  "orderly steady_world [AddServer cfgA, AddServer cfgB, RemoveServer ''A''] (new_controller []) \<and>
   registration_order [AddServer cfgA, AddServer cfgB, RemoveServer ''A''] [] = [''B''] \<and>
   map (\<lambda>(s, ts). get_control_name s)
     (list_all_servers_tools
        (run steady_world [AddServer cfgA, AddServer cfgB, RemoveServer ''A''] (new_controller [])))
     = [''B''] \<and>
   list_all_servers_tools
     (run steady_world [AddServer cfgA, AddServer cfgB, RemoveServer ''A''] (new_controller []))
     = [(serverB, [t3])]"
proof -
  have ord: "orderly steady_world [AddServer cfgA, AddServer cfgB, RemoveServer ''A'']
      (new_controller [])"
    by (simp add: add_A_to_new add_B_to_A_steady remove_A_from_AB_steady) (simp add: state_A_def)
  have ro: "registration_order [AddServer cfgA, AddServer cfgB, RemoveServer ''A''] [] = [''B'']"
    by simp
  have val: "list_all_servers_tools
     (run steady_world [AddServer cfgA, AddServer cfgB, RemoveServer ''A''] (new_controller []))
     = [(serverB, [t3])]"
    by (simp add: add_A_to_new add_B_to_A_steady remove_A_from_AB_steady
        list_all_servers_tools_def)
  from list_all_servers_tools_in_registration_order [OF ord, THEN conjunct1]
  have "map (\<lambda>(s, ts). get_control_name s)
     (list_all_servers_tools
        (run steady_world [AddServer cfgA, AddServer cfgB, RemoveServer ''A''] (new_controller [])))
     = [''B'']"
    unfolding ro .
  with ord ro val show ?thesis by (intro conjI) assumption+
qed

text \<open>
  For every sequence the property fails: \<open>A\<close> is added twice and then removed, every call
  returning normally. The removal takes the second server object out of the list; the
  first one stays in \<open>list_all_servers_tools\<close> although the server map is empty.
\<close>

theorem registration_order_counterexample:
  "results steady_world [AddServer cfgA, AddServer cfgA_alt, RemoveServer ''A''] (new_controller [])
     = [Inr (), Inr (), Inr ()] \<and>
   list_all_servers_tools
     (run steady_world [AddServer cfgA, AddServer cfgA_alt, RemoveServer ''A''] (new_controller []))
     = [(serverA, [t1, t2])] \<and>
   servers_map
     (run steady_world [AddServer cfgA, AddServer cfgA_alt, RemoveServer ''A''] (new_controller []))
     = Map.empty"
proof -
  let ?st = "state_A\<lparr>next_oid := Suc (Suc 0),
        trace := trace state_A @ [Initialize serverA2, ListTools serverA2],
        servers_map := [''A'' \<mapsto> serverA2],
        all_servers_tools := [(serverA, [t1, t2]), (serverA2, [t1_alt, t2])],
        tools_map := [''A-t1'' \<mapsto> t1_alt, ''A-t2'' \<mapsto> t2]\<rparr>"
  have "servers_map ?st ''A'' = Some serverA2" by simp
  from remove_server_returns [OF this, of steady_world "[t1_alt, t2]"]
  have "remove_server steady_world ''A'' ?st =
      (Inr (), ?st\<lparr>servers_map := Map.empty,
         trace := trace ?st @ [Shutdown serverA2, ListTools serverA2],
         all_servers_tools := [(serverA, [t1, t2])],
         tools_map := delete_tools (tools_map ?st) [t1_alt, t2]\<rparr>)"
    by simp
  then show ?thesis
    by (simp add: add_A_to_new add_A_to_A_steady list_all_servers_tools_def)
qed

section \<open>Removing an absent server\<close>

text \<open>
  Claim C8. For every registry state and every control name that is not a key of the
  server map, \<open>remove_server\<close> returns normally (it raises nothing) and leaves the whole
  state as it was: no field changes and no call is made on any collaborator.
\<close>

theorem remove_server_absent_noop:
  "servers_map st server_control_name = None \<Longrightarrow>
     remove_server w server_control_name st = (Inr (), st)"
  by (simp add: remove_server_def)

theorem remove_server_absent_noop_witness:
  "servers_map (new_controller []) ''A'' = None \<and>
   remove_server steady_world ''A'' (new_controller []) = (Inr (), new_controller [])"
  using remove_server_absent_noop [of "new_controller []" "''A''" steady_world]
  by (simp add: new_controller_def)

section \<open>The boundary operation that adds a server\<close>

text \<open>
  Claim C9. When the server map has the submitted control name as a key, \<open>add_new_server\<close>
  raises an \<open>HTTPException\<close> with status 409 and leaves the controller as it was:
  \<open>add_server\<close> is not called. When the name is not a key, \<open>add_new_server\<close> calls
  \<open>add_server\<close> and ends in the state that call leaves; it returns the success message when
  \<open>add_server\<close> returns, and raises what the handler makes of the exception when
  \<open>add_server\<close> raises.
\<close>

theorem add_new_server_conflict_or_add:
  "(\<forall>existing. servers_map st (name cfg) = Some existing \<longrightarrow>
      add_new_server w cfg st =
        (Inl (HTTPException 409
               (''Server with control name '' @ quoted (name cfg) @ '' already exists.'')), st)) \<and>
   (servers_map st (name cfg) = None \<longrightarrow>
      snd (add_new_server w cfg st) = snd (add_server w cfg st) \<and>
      (fst (add_server w cfg st) = Inr () \<longrightarrow>
         fst (add_new_server w cfg st) =
           Inr (''Server '' @ quoted (name cfg) @ '' added successfully.'')) \<and>
      (\<forall>e. fst (add_server w cfg st) = Inl e \<longrightarrow>
         fst (add_new_server w cfg st) = Inl (add_new_server_handler cfg e)))"
  by (auto simp: add_new_server_def get_server_by_control_name_def add_new_server_handler_def
      split: prod.splits sum.splits)

theorem add_new_server_conflict_or_add_witness:
  "servers_map state_A (name cfgA) = Some serverA \<and>
   add_new_server steady_world cfgA state_A =
     (Inl (HTTPException 409 (''Server with control name '' @ quoted ''A'' @ '' already exists.'')),
      state_A) \<and>
   servers_map (new_controller []) (name cfgA) = None \<and>
   fst (add_server steady_world cfgA (new_controller [])) = Inr () \<and>
   add_new_server steady_world cfgA (new_controller []) =
     (Inr (''Server '' @ quoted ''A'' @ '' added successfully.''), state_A) \<and>
   servers_map state_A (name cfgB) = None \<and>
   fst (add_server unreachable_B_world cfgB state_A) = Inl (Exception ''connection refused'') \<and>
   fst (add_new_server unreachable_B_world cfgB state_A) =
     Inl (HTTPException 500 (''An unexpected error occurred while adding server '' @ quoted ''B'' @ ''.''))"
proof -
  note claim = add_new_server_conflict_or_add
  have a: "servers_map state_A (name cfgA) = Some serverA"
    by (simp add: state_A_def)
  have b: "servers_map (new_controller []) (name cfgA) = None"
    by simp
  have c: "servers_map state_A (name cfgB) = None"
    by (simp add: state_A_def)
  have add: "add_server steady_world cfgA (new_controller []) = (Inr (), state_A)"
    by (simp add: add_A_to_new)
  have s: "serverB = \<lparr>oid = next_oid state_A, config = cfgB\<rparr>"
    by (simp add: serverB_def state_A_def)
  have bad: "fst (add_server unreachable_B_world cfgB state_A) = Inl (Exception ''connection refused'')"
    using add_server_initialize_raises [OF s, of unreachable_B_world "Exception ''connection refused''"]
    by simp
  from claim [of state_A cfgA steady_world, THEN conjunct1, THEN spec, THEN mp, OF a]
  have 1: "add_new_server steady_world cfgA state_A =
     (Inl (HTTPException 409 (''Server with control name '' @ quoted ''A'' @ '' already exists.'')),
      state_A)"
    by simp
  from claim [of "new_controller []" cfgA steady_world, THEN conjunct2, THEN mp, OF b]
  have 2: "add_new_server steady_world cfgA (new_controller []) =
     (Inr (''Server '' @ quoted ''A'' @ '' added successfully.''), state_A)"
    by (simp add: add prod_eq_iff)
  from claim [of state_A cfgB unreachable_B_world, THEN conjunct2, THEN mp, OF c] bad
  have 3: "fst (add_new_server unreachable_B_world cfgB state_A) =
     Inl (HTTPException 500 (''An unexpected error occurred while adding server '' @ quoted ''B'' @ ''.''))"
    by (simp add: add_new_server_handler_def)
  have 4: "fst (add_server steady_world cfgA (new_controller [])) = Inr ()"
    by (simp add: add)
  from a 1 b 4 2 c bad 3 show ?thesis by (intro conjI) assumption+
qed

section \<open>The ordered list after a duplicate registration\<close>

text \<open>
  Claim C10, as the code has it. Let \<open>add_server\<close> be called with a control name that is
  registered, the registered server having its pair in the ordered list (its own
  \<open>add_server\<close> got as far as the list), and let the calls on the new connection succeed.
  Then the new pair is appended and the old pair stays: \<open>list_all_servers_tools\<close> has at
  least two entries with that control name, while \<open>get_server_by_control_name\<close> returns the
  new server only. The tool index is overwritten like the server map: every control name
  of a tool the new server lists is mapped to the last tool of that list with that name,
  and every other key is left as it was.
\<close>

theorem add_server_duplicate_keeps_old_pair:
  assumes "server = \<lparr>oid = next_oid st, config = cfg\<rparr>"
    and "initialize_reply w (trace st) server = None"
    and "list_tools_reply w (trace st @ [Initialize server]) server = Inr tools"
    and "servers_map st (name cfg) = Some old"
    and "(old, old_tools) \<in> set (all_servers_tools st)"
    and "get_control_name old = name cfg"
    and "oid old < next_oid st"
    and "add_server w cfg st = (r, st')"
  shows "r = Inr () \<and>
         list_all_servers_tools st' = list_all_servers_tools st @ [(server, tools)] \<and>
         (old, old_tools) \<in> set (list_all_servers_tools st') \<and>
         server \<noteq> old \<and> get_control_name server = name cfg \<and>
         2 \<le> length (filter (\<lambda>(s, ts). get_control_name s = name cfg) (list_all_servers_tools st')) \<and>
         get_server_by_control_name st' (name cfg) = Inr server \<and>
         (\<forall>tool \<in> set tools.
            tools_map st' (control_name tool) =
              Some (last (filter (\<lambda>t'. control_name t' = control_name tool) tools))) \<and>
         (\<forall>k. k \<notin> control_name ` set tools \<longrightarrow> tools_map st' k = tools_map st k)"
proof -
  from assms(5,6) have "(old, old_tools) \<in> set (filter (\<lambda>(s, ts). get_control_name s = name cfg) (all_servers_tools st))"
    by simp
  then have "1 \<le> length (filter (\<lambda>(s, ts). get_control_name s = name cfg) (all_servers_tools st))"
    by (metis One_nat_def Suc_leI length_pos_if_in_set)
  then show ?thesis
    using assms add_server_returns [of server st cfg w tools]
    by (auto simp: list_all_servers_tools_def get_server_by_control_name_def get_control_name_def
        insert_tools_last insert_tools_other)
qed

theorem add_server_duplicate_keeps_old_pair_witness:
  "servers_map state_A (name cfgA_alt) = Some serverA \<and>
   (serverA, [t1, t2]) \<in> set (all_servers_tools state_A) \<and>
   get_control_name serverA = name cfgA_alt \<and>
   oid serverA < next_oid state_A \<and>
   fst (add_server steady_world cfgA_alt state_A) = Inr () \<and>
   list_all_servers_tools (snd (add_server steady_world cfgA_alt state_A)) =
     [(serverA, [t1, t2]), (serverA2, [t1_alt, t2])] \<and>
   get_control_name serverA2 = name cfgA_alt \<and>
   get_server_by_control_name (snd (add_server steady_world cfgA_alt state_A)) (name cfgA_alt) = Inr serverA2 \<and>
   tools_map state_A ''A-t1'' = Some t1 \<and>
   t1_alt \<noteq> t1 \<and>
   tools_map (snd (add_server steady_world cfgA_alt state_A)) ''A-t1'' = Some t1_alt"
proof -
  have s: "serverA2 = \<lparr>oid = next_oid state_A, config = cfgA_alt\<rparr>"
    by (simp add: serverA2_def state_A_def)
  have old: "servers_map state_A (name cfgA_alt) = Some serverA"
    by (simp add: state_A_def)
  have pair: "(serverA, [t1, t2]) \<in> set (all_servers_tools state_A)"
    by (simp add: state_A_def)
  have oid: "oid serverA < next_oid state_A"
    by (simp add: state_A_def serverA_def)
  have add: "add_server steady_world cfgA_alt state_A =
      (fst (add_server steady_world cfgA_alt state_A), snd (add_server steady_world cfgA_alt state_A))"
    by simp
  have tool: "tools_map state_A ''A-t1'' = Some t1" "t1_alt \<noteq> t1"
    by (simp_all add: state_A_def t1_def t1_alt_def)
  have "list_all_servers_tools state_A = [(serverA, [t1, t2])]"
    by (simp add: list_all_servers_tools_def state_A_def)
  with add_server_duplicate_keeps_old_pair [where tools = "[t1_alt, t2]", OF s _ _ old pair _ oid add]
    old pair oid tool
  show ?thesis by simp
qed

text \<open>
  A registered control name alone does not give two entries. An \<open>add_server\<close> of \<open>A\<close> whose
  connection initialised and then failed to list its tools leaves the server in the
  server map and out of the ordered list. A second \<open>add_server\<close> under the name \<open>A\<close>, all
  of whose calls succeed, overwrites the entry of the server map and appends its pair:
  \<open>list_all_servers_tools\<close> then has this one entry.
\<close>

theorem duplicate_after_failed_add_counterexample:
  "add_server late_listing_world cfgA (new_controller []) =
     (Inl (Exception ''listing failed''), state_half_A) \<and>
   get_server_by_control_name state_half_A (name cfgA_alt) = Inr serverA \<and>
   fst (add_server late_listing_world cfgA_alt state_half_A) = Inr () \<and>
   get_server_by_control_name (snd (add_server late_listing_world cfgA_alt state_half_A))
     (name cfgA_alt) = Inr serverA2 \<and>
   list_all_servers_tools (snd (add_server late_listing_world cfgA_alt state_half_A)) =
     [(serverA2, [t1_alt, t2])]"
proof -
  have s: "serverA = \<lparr>oid = next_oid (new_controller []), config = cfgA\<rparr>"
    by (simp add: serverA_def)
  have first: "add_server late_listing_world cfgA (new_controller []) =
      (Inl (Exception ''listing failed''), state_half_A)"
    using add_server_list_tools_raises [OF s, of late_listing_world "Exception ''listing failed''"]
    by (simp add: state_half_A_def new_controller_def)
  have s2: "serverA2 = \<lparr>oid = next_oid state_half_A, config = cfgA_alt\<rparr>"
    by (simp add: serverA2_def state_half_A_def)
  have second: "add_server late_listing_world cfgA_alt state_half_A =
      (Inr (), state_half_A\<lparr>next_oid := Suc (next_oid state_half_A),
         trace := trace state_half_A @ [Initialize serverA2, ListTools serverA2],
         servers_map := (servers_map state_half_A)(name cfgA_alt \<mapsto> serverA2),
         all_servers_tools := all_servers_tools state_half_A @ [(serverA2, [t1_alt, t2])],
         tools_map := insert_tools (tools_map state_half_A) [t1_alt, t2]\<rparr>)"
    by (rule add_server_returns [OF s2]) (simp_all add: state_half_A_def)
  show ?thesis
    unfolding first second
    by (simp add: get_server_by_control_name_def list_all_servers_tools_def)
      (simp add: state_half_A_def)
qed

end
